theory Spec2Isabelle
  imports
    Main
    "HOL-Library.Word"
    "HOL-Library.AList"
    "HOL-Library.Char_ord"
    "HOL-Library.List_Lexorder"
    "HOL-Library.Product_Lexorder"
    "HOL-Library.Multiset"
begin

unbundle bit_operations_syntax

section \<open>Go values\<close>

text \<open>
  A Go \<open>string\<close> is a sequence of bytes, and so is \<^typ>\<open>string\<close>: a list of
  \<^typ>\<open>char\<close>, each one byte. Go compares strings byte by byte, which is the
  lexicographic order on \<^typ>\<open>char list\<close> over the order of the byte values.
  An \<open>error\<close> result that may be \<open>nil\<close> is a \<open>go_error option\<close>; a pointer result
  that may be \<open>nil\<close> is an \<open>option\<close> as well.
\<close>

datatype go_error =
    EscapeError string      \<comment> \<open>net/url: invalid URL escape\<close>
  | SemicolonError          \<comment> \<open>net/url: invalid semicolon separator in query\<close>
  | SyntaxError string      \<comment> \<open>strconv: invalid syntax\<close>
  | RangeError string       \<comment> \<open>strconv: value out of range\<close>
  | NewError int            \<comment> \<open>\<open>flickErr.NewError(code)\<close>\<close>
  | TransportError string   \<comment> \<open>what \<open>HTTPClient.Get\<close> or reading the body reports\<close>
  | IndexOutOfRange         \<comment> \<open>run-time panic: index out of range\<close>

subsection \<open>strings.TrimSpace\<close>

text \<open>
  \<open>TrimSpace\<close> removes leading and trailing white space as Unicode defines it. On the bytes
  of a string these are the six ASCII characters and the UTF-8 encodings of U+0085, U+00A0,
  U+1680, U+2000 to U+200A, U+2028, U+2029, U+202F, U+205F and U+3000.
\<close>

definition spaceRunes :: "string list" where
  "spaceRunes =
     [[CHR 0x09], [CHR 0x0A], [CHR 0x0B], [CHR 0x0C], [CHR 0x0D], [CHR 0x20],
      [CHR 0xC2, CHR 0x85], [CHR 0xC2, CHR 0xA0], [CHR 0xE1, CHR 0x9A, CHR 0x80],
      [CHR 0xE2, CHR 0x80, CHR 0x80], [CHR 0xE2, CHR 0x80, CHR 0x81],
      [CHR 0xE2, CHR 0x80, CHR 0x82], [CHR 0xE2, CHR 0x80, CHR 0x83],
      [CHR 0xE2, CHR 0x80, CHR 0x84], [CHR 0xE2, CHR 0x80, CHR 0x85],
      [CHR 0xE2, CHR 0x80, CHR 0x86], [CHR 0xE2, CHR 0x80, CHR 0x87],
      [CHR 0xE2, CHR 0x80, CHR 0x88], [CHR 0xE2, CHR 0x80, CHR 0x89],
      [CHR 0xE2, CHR 0x80, CHR 0x8A], [CHR 0xE2, CHR 0x80, CHR 0xA8],
      [CHR 0xE2, CHR 0x80, CHR 0xA9], [CHR 0xE2, CHR 0x80, CHR 0xAF],
      [CHR 0xE2, CHR 0x81, CHR 0x9F], [CHR 0xE3, CHR 0x80, CHR 0x80]]"

fun trimRunes :: "string list \<Rightarrow> string \<Rightarrow> string" where
  "trimRunes ps [] = []"
| "trimRunes ps (c # s) =
     (case find (\<lambda>p. p \<noteq> [] \<and> take (length p) (c # s) = p) ps of
        None \<Rightarrow> c # s
      | Some p \<Rightarrow> trimRunes ps (drop (length p - 1) s))"

definition TrimSpace :: "string \<Rightarrow> string" where
  "TrimSpace s = rev (trimRunes (map rev spaceRunes) (rev (trimRunes spaceRunes s)))"

subsection \<open>strconv\<close>

definition ParseBool :: "string \<Rightarrow> bool \<times> go_error option" where
  "ParseBool str =
     (if str \<in> set [''1'', ''t'', ''T'', ''true'', ''TRUE'', ''True''] then (True, None)
      else if str \<in> set [''0'', ''f'', ''F'', ''false'', ''FALSE'', ''False''] then (False, None)
      else (False, Some (SyntaxError str)))"

text \<open>
  \<open>Atoi\<close> on a platform whose \<open>int\<close> has 64 bits. Strings of 1 to 18 bytes take the fast
  path, which cannot overflow; all others go through \<open>ParseInt(s, 10, 0)\<close> and
  \<open>ParseUint\<close>, which check the range. The byte subtraction \<open>ch -= '0'\<close> wraps around.
  In base 10 a letter is a digit of value 10 or more and an underscore is no digit, so
  \<open>ParseUint\<close> reports a syntax error at every byte that is not a decimal digit.
\<close>

definition byteSub :: "nat \<Rightarrow> nat \<Rightarrow> nat" where
  "byteSub a b = (a + 256 - b) mod 256"

fun atoiFast :: "string \<Rightarrow> int \<Rightarrow> string \<Rightarrow> int \<times> go_error option" where
  "atoiFast s0 n [] = (if hd s0 = CHR ''-'' then - n else n, None)"
| "atoiFast s0 n (ch # s) =
     (let d = byteSub (of_char ch) 48 in
      if d > 9 then (0, Some (SyntaxError s0))
      else atoiFast s0 (n * 10 + int d) s)"

definition maxUint64 :: int where
  "maxUint64 = 18446744073709551615"

fun parseUintLoop :: "string \<Rightarrow> int \<Rightarrow> string \<Rightarrow> int \<times> go_error option" where
  "parseUintLoop s0 n [] = (n, None)"
| "parseUintLoop s0 n (c # s) =
     (if CHR ''0'' \<le> c \<and> c \<le> CHR ''9'' then
        (if n \<ge> maxUint64 div 10 + 1 then (maxUint64, Some (RangeError s0))
         else let n1 = n * 10 + (of_char c - 48) in
           if n1 > maxUint64 then (maxUint64, Some (RangeError s0))
           else parseUintLoop s0 n1 s)
      else (0, Some (SyntaxError s0)))"

definition ParseUint :: "string \<Rightarrow> int \<times> go_error option" where
  "ParseUint s = (if s = [] then (0, Some (SyntaxError s)) else parseUintLoop s 0 s)"

definition ParseInt :: "string \<Rightarrow> int \<times> go_error option" where
  "ParseInt s =
     (if s = [] then (0, Some (SyntaxError s))
      else
        let neg = (hd s = CHR ''-'');
            s1 = (if hd s = CHR ''+'' \<or> hd s = CHR ''-'' then tl s else s);
            cutoff = 9223372036854775808
        in (case ParseUint s1 of
              (un, Some (RangeError x)) \<Rightarrow>
                 (if neg then (- cutoff, Some (RangeError s)) else (cutoff - 1, Some (RangeError s)))
            | (un, Some e) \<Rightarrow> (0, Some (SyntaxError s))
            | (un, None) \<Rightarrow>
                 if \<not> neg \<and> un \<ge> cutoff then (cutoff - 1, Some (RangeError s))
                 else if neg \<and> un > cutoff then (- cutoff, Some (RangeError s))
                 else (if neg then - un else un, None)))"

definition Atoi :: "string \<Rightarrow> int \<times> go_error option" where
  "Atoi s =
     (if 0 < length s \<and> length s < 19 then
        (if hd s = CHR ''-'' \<or> hd s = CHR ''+'' then
           (if length (tl s) < 1 then (0, Some (SyntaxError s)) else atoiFast s 0 (tl s))
         else atoiFast s 0 s)
      else ParseInt s)"

text \<open>\<open>fmt.Sprintf("%d", n)\<close>: the decimal digits of \<open>n\<close>, after a minus sign when negative.\<close>

function formatUint :: "int \<Rightarrow> string \<Rightarrow> string" where
  "formatUint n acc =
     (if n < 10 then char_of (48 + nat n) # acc
      else formatUint (n div 10) (char_of (48 + nat (n mod 10)) # acc))"
  by pat_completeness auto
termination
  by (relation "measure (\<lambda>(n, acc). nat n)") auto

definition FormatInt :: "int \<Rightarrow> string" where
  "FormatInt n = (if n < 0 then CHR ''-'' # formatUint (- n) [] else formatUint n [])"

subsection \<open>net/url: escaping\<close>

text \<open>
  \<open>shouldEscape(c, encodeQueryComponent)\<close>: letters, digits and \<open>- _ . ~\<close> stay, every
  other byte is escaped.
\<close>

definition shouldEscape :: "char \<Rightarrow> bool" where
  "shouldEscape c =
     (if (CHR ''a'' \<le> c \<and> c \<le> CHR ''z'') \<or> (CHR ''A'' \<le> c \<and> c \<le> CHR ''Z'')
          \<or> (CHR ''0'' \<le> c \<and> c \<le> CHR ''9'') then False
      else if c \<in> set ''-_.~'' then False
      else True)"

definition upperhex :: string where
  "upperhex = ''0123456789ABCDEF''"

fun QueryEscape :: "string \<Rightarrow> string" where
  "QueryEscape [] = []"
| "QueryEscape (c # s) =
     (if shouldEscape c then
        (if c = CHR '' '' then CHR ''+'' # QueryEscape s
         else CHR ''%'' # upperhex ! (of_char c div 16) # upperhex ! (of_char c mod 16)
                # QueryEscape s)
      else c # QueryEscape s)"

definition ishex :: "char \<Rightarrow> bool" where
  "ishex c = ((CHR ''0'' \<le> c \<and> c \<le> CHR ''9'') \<or> (CHR ''a'' \<le> c \<and> c \<le> CHR ''f'')
     \<or> (CHR ''A'' \<le> c \<and> c \<le> CHR ''F''))"

definition unhex :: "char \<Rightarrow> nat" where
  "unhex c =
     (if CHR ''0'' \<le> c \<and> c \<le> CHR ''9'' then of_char c - 48
      else if CHR ''a'' \<le> c \<and> c \<le> CHR ''f'' then of_char c - 97 + 10
      else if CHR ''A'' \<le> c \<and> c \<le> CHR ''F'' then of_char c - 65 + 10
      else 0)"

text \<open>
  \<open>QueryUnescape\<close>: a \<open>%\<close> must be followed by two hex digits, else the result is an
  \<open>EscapeError\<close> holding at most three bytes from the \<open>%\<close> on; \<open>+\<close> becomes a space.
\<close>

fun QueryUnescape :: "string \<Rightarrow> go_error + string" where
  "QueryUnescape [] = Inr []"
| "QueryUnescape (c # s) =
     (if c = CHR ''%'' then
        (case s of
           h1 # h2 # rest \<Rightarrow>
             (if ishex h1 \<and> ishex h2 then
                (case QueryUnescape rest of
                   Inl e \<Rightarrow> Inl e
                 | Inr t \<Rightarrow> Inr (char_of (unhex h1 * 16 + unhex h2) # t))
              else Inl (EscapeError (take 3 (c # s))))
         | _ \<Rightarrow> Inl (EscapeError (take 3 (c # s))))
      else
        (case QueryUnescape s of
           Inl e \<Rightarrow> Inl e
         | Inr t \<Rightarrow> Inr ((if c = CHR ''+'' then CHR '' '' else c) # t)))"

subsection \<open>net/url: Values\<close>

text \<open>
  \<open>url.Values\<close> is \<open>map[string][]string\<close>. It is modelled as an association list whose
  keys are distinct; the order of the list stands for the order in which keys were
  inserted, which a Go map does not keep and which the code never relies on: it sorts the
  keys before it walks them.
\<close>

type_synonym Values = "(string \<times> string list) list"

definition wf_Values :: "Values \<Rightarrow> bool" where
  "wf_Values v = distinct (map fst v)"

definition Values_index :: "Values \<Rightarrow> string \<Rightarrow> string list" where
  \<comment> \<open>\<open>v[key]\<close>: the empty slice when the key is missing\<close>
  "Values_index v key = (case map_of v key of None \<Rightarrow> [] | Some vs \<Rightarrow> vs)"

definition Values_Get :: "Values \<Rightarrow> string \<Rightarrow> string" where
  "Values_Get v key = (case Values_index v key of [] \<Rightarrow> [] | x # _ \<Rightarrow> x)"

definition Values_Set :: "Values \<Rightarrow> string \<Rightarrow> string \<Rightarrow> Values" where
  "Values_Set v key val = AList.update key [val] v"

definition Values_Add :: "Values \<Rightarrow> string \<Rightarrow> string \<Rightarrow> Values" where
  "Values_Add v key val = AList.update key (Values_index v key @ [val]) v"

definition Values_Del :: "Values \<Rightarrow> string \<Rightarrow> Values" where
  "Values_Del v key = AList.delete key v"

text \<open>
  \<open>Values.Encode\<close>: the keys sorted, then for each key its values in the order they are
  stored, each as \<open>key=value\<close> with both sides escaped, an \<open>&\<close> before every pair but the
  first.
\<close>

fun encodeValues :: "string \<Rightarrow> string list \<Rightarrow> string \<Rightarrow> string" where
  "encodeValues keyEscaped [] buf = buf"
| "encodeValues keyEscaped (x # vs) buf =
     encodeValues keyEscaped vs
       ((if length buf > 0 then buf @ ''&'' else buf) @ keyEscaped @ ''='' @ QueryEscape x)"

fun encodeKeys :: "Values \<Rightarrow> string list \<Rightarrow> string \<Rightarrow> string" where
  "encodeKeys v [] buf = buf"
| "encodeKeys v (k # keys) buf =
     encodeKeys v keys (encodeValues (QueryEscape k) (Values_index v k) buf)"

definition Values_Encode :: "Values \<Rightarrow> string" where
  "Values_Encode v = encodeKeys v (sort (map fst v)) []"

text \<open>
  \<open>ParseQuery\<close>: the pairs are separated by \<open>&\<close>; a pair holding a semicolon sets the
  error, an empty one is skipped, one whose key or value does not unescape sets the error
  unless one is set already; every other pair is appended to the values of its key. The
  values collected are returned together with the error.
\<close>

definition cut :: "char \<Rightarrow> string \<Rightarrow> string \<times> string" where
  "cut sep s = (takeWhile (\<lambda>c. c \<noteq> sep) s, drop 1 (dropWhile (\<lambda>c. c \<noteq> sep) s))"

function parseQuery :: "Values \<Rightarrow> go_error option \<Rightarrow> string \<Rightarrow> Values \<times> go_error option" where
  "parseQuery m err query =
     (if query = [] then (m, err)
      else
        let key = fst (cut (CHR ''&'') query); rest = snd (cut (CHR ''&'') query) in
        if CHR '';'' \<in> set key then parseQuery m (Some SemicolonError) rest
        else if key = [] then parseQuery m err rest
        else
          (case QueryUnescape (fst (cut (CHR ''='') key)) of
             Inl e1 \<Rightarrow> parseQuery m (if err = None then Some e1 else err) rest
           | Inr k \<Rightarrow>
               (case QueryUnescape (snd (cut (CHR ''='') key)) of
                  Inl e1 \<Rightarrow> parseQuery m (if err = None then Some e1 else err) rest
                | Inr x \<Rightarrow> parseQuery (Values_Add m k x) err rest)))"
  by pat_completeness auto
termination
proof -
  have shorter: "length (dropWhile P q) - Suc 0 < length q" if "q \<noteq> []"
    for P and q :: string
    using that length_dropWhile_le [of P q] by (cases q) auto
  show ?thesis
    by (relation "measure (\<lambda>(m, err, query). length query)") (auto simp: cut_def shorter)
qed

declare parseQuery.simps [simp del]

definition ParseQuery :: "string \<Rightarrow> Values \<times> go_error option" where
  "ParseQuery query = parseQuery [] None query"

subsection \<open>encoding/base64 and hexadecimal output\<close>

definition encodeStd :: string where
  "encodeStd = ''ABCDEFGHIJKLMNOPQRSTUVWXYZabcdefghijklmnopqrstuvwxyz0123456789+/''"

fun EncodeToString :: "string \<Rightarrow> string" where
  "EncodeToString (a # b # c # src) =
     encodeStd ! (of_char a div 4)
     # encodeStd ! ((of_char a mod 4) * 16 + of_char b div 16)
     # encodeStd ! ((of_char b mod 16) * 4 + of_char c div 64)
     # encodeStd ! (of_char c mod 64)
     # EncodeToString src"
| "EncodeToString [a, b] =
     [encodeStd ! (of_char a div 4),
      encodeStd ! ((of_char a mod 4) * 16 + of_char b div 16),
      encodeStd ! ((of_char b mod 16) * 4), CHR ''='']"
| "EncodeToString [a] =
     [encodeStd ! (of_char a div 4), encodeStd ! ((of_char a mod 4) * 16), CHR ''='', CHR ''='']"
| "EncodeToString [] = []"

definition lowerhex :: string where
  "lowerhex = ''0123456789abcdef''"

definition hexString :: "string \<Rightarrow> string" where
  \<comment> \<open>\<open>fmt.Sprintf("%x", bytes)\<close>: two lower-case hex digits for each byte\<close>
  "hexString bs = concat (map (\<lambda>c. [lowerhex ! (of_char c div 16), lowerhex ! (of_char c mod 16)]) bs)"

subsection \<open>crypto/md5, crypto/sha1 and crypto/hmac\<close>

text \<open>
  MD5 (RFC 1321), SHA-1 (RFC 3174) and HMAC (RFC 2104) on byte strings, with the 32-bit
  arithmetic of the algorithms on \<^typ>\<open>32 word\<close>.
\<close>

type_synonym u32 = "32 word"

definition rotl :: "nat \<Rightarrow> u32 \<Rightarrow> u32" where
  "rotl n w = (push_bit n w) OR (drop_bit (32 - n) w)"

fun chunks :: "nat \<Rightarrow> 'a list \<Rightarrow> 'a list list" where
  "chunks n [] = []"
| "chunks n (x # xs) = take n (x # xs) # chunks n (drop (n - 1) xs)"

definition word_le_bytes :: "nat \<Rightarrow> 'a::len word \<Rightarrow> string" where
  "word_le_bytes k w = map (\<lambda>i. char_of (unat (drop_bit (8 * i) w AND 0xff))) [0..<k]"

definition word_be_bytes :: "nat \<Rightarrow> 'a::len word \<Rightarrow> string" where
  "word_be_bytes k w = rev (word_le_bytes k w)"

definition le_word :: "string \<Rightarrow> u32" where
  "le_word bs = foldr (\<lambda>c w. of_char c + push_bit 8 w) bs 0"

definition be_word :: "string \<Rightarrow> u32" where
  "be_word bs = foldl (\<lambda>w c. push_bit 8 w + of_char c) 0 bs"

text \<open>
  Both hashes pad the message with the byte 0x80, zero bytes up to 56 modulo 64, and the
  length of the message in bits as a 64-bit number (little-endian in MD5, big-endian in
  SHA-1).
\<close>

definition pad_len :: "nat \<Rightarrow> nat" where
  "pad_len n = (119 - n mod 64) mod 64"

definition md5_pad :: "string \<Rightarrow> string" where
  "md5_pad m = m @ [CHR 0x80] @ replicate (pad_len (length m)) (CHR 0x00)
     @ word_le_bytes 8 (of_nat (8 * length m) :: 64 word)"

definition sha1_pad :: "string \<Rightarrow> string" where
  "sha1_pad m = m @ [CHR 0x80] @ replicate (pad_len (length m)) (CHR 0x00)
     @ word_be_bytes 8 (of_nat (8 * length m) :: 64 word)"

definition md5_K :: "u32 list" where
  "md5_K =
    [0xd76aa478, 0xe8c7b756, 0x242070db, 0xc1bdceee, 0xf57c0faf, 0x4787c62a, 0xa8304613,
     0xfd469501, 0x698098d8, 0x8b44f7af, 0xffff5bb1, 0x895cd7be, 0x6b901122, 0xfd987193,
     0xa679438e, 0x49b40821, 0xf61e2562, 0xc040b340, 0x265e5a51, 0xe9b6c7aa, 0xd62f105d,
     0x02441453, 0xd8a1e681, 0xe7d3fbc8, 0x21e1cde6, 0xc33707d6, 0xf4d50d87, 0x455a14ed,
     0xa9e3e905, 0xfcefa3f8, 0x676f02d9, 0x8d2a4c8a, 0xfffa3942, 0x8771f681, 0x6d9d6122,
     0xfde5380c, 0xa4beea44, 0x4bdecfa9, 0xf6bb4b60, 0xbebfbc70, 0x289b7ec6, 0xeaa127fa,
     0xd4ef3085, 0x04881d05, 0xd9d4d039, 0xe6db99e5, 0x1fa27cf8, 0xc4ac5665, 0xf4292244,
     0x432aff97, 0xab9423a7, 0xfc93a039, 0x655b59c3, 0x8f0ccc92, 0xffeff47d, 0x85845dd1,
     0x6fa87e4f, 0xfe2ce6e0, 0xa3014314, 0x4e0811a1, 0xf7537e82, 0xbd3af235, 0x2ad7d2bb,
     0xeb86d391]"

definition md5_S :: "nat list" where
  "md5_S =
    [7, 12, 17, 22, 7, 12, 17, 22, 7, 12, 17, 22, 7, 12, 17, 22,
     5, 9, 14, 20, 5, 9, 14, 20, 5, 9, 14, 20, 5, 9, 14, 20,
     4, 11, 16, 23, 4, 11, 16, 23, 4, 11, 16, 23, 4, 11, 16, 23,
     6, 10, 15, 21, 6, 10, 15, 21, 6, 10, 15, 21, 6, 10, 15, 21]"

definition md5_round ::
  "u32 list \<Rightarrow> u32 \<times> u32 \<times> u32 \<times> u32 \<Rightarrow> nat \<Rightarrow> u32 \<times> u32 \<times> u32 \<times> u32" where
  "md5_round M st i =
     (case st of (a, b, c, d) \<Rightarrow>
        (let (f, g) =
           (if i < 16 then ((b AND c) OR (NOT b AND d), i)
            else if i < 32 then ((d AND b) OR (NOT d AND c), (5 * i + 1) mod 16)
            else if i < 48 then (b XOR c XOR d, (3 * i + 5) mod 16)
            else (c XOR (b OR NOT d), (7 * i) mod 16));
           f' = f + a + md5_K ! i + M ! g
         in (d, b + rotl (md5_S ! i) f', b, c)))"

definition md5_block :: "u32 \<times> u32 \<times> u32 \<times> u32 \<Rightarrow> string \<Rightarrow> u32 \<times> u32 \<times> u32 \<times> u32" where
  "md5_block st blk =
     (case st of (a0, b0, c0, d0) \<Rightarrow>
        (case foldl (md5_round (map le_word (chunks 4 blk))) st [0..<64] of
           (a, b, c, d) \<Rightarrow> (a0 + a, b0 + b, c0 + c, d0 + d)))"

definition md5_Sum :: "string \<Rightarrow> string" where
  "md5_Sum m =
     (case foldl md5_block (0x67452301, 0xefcdab89, 0x98badcfe, 0x10325476)
             (chunks 64 (md5_pad m)) of
        (a, b, c, d) \<Rightarrow> concat (map (word_le_bytes 4) [a, b, c, d]))"

fun sha1_schedule :: "nat \<Rightarrow> u32 list \<Rightarrow> u32 list" where
  "sha1_schedule 0 w = w"
| "sha1_schedule (Suc n) w =
     sha1_schedule n
       (w @ [rotl 1 (w ! (length w - 3) XOR w ! (length w - 8)
               XOR w ! (length w - 14) XOR w ! (length w - 16))])"

definition sha1_round ::
  "u32 list \<Rightarrow> u32 \<times> u32 \<times> u32 \<times> u32 \<times> u32 \<Rightarrow> nat \<Rightarrow> u32 \<times> u32 \<times> u32 \<times> u32 \<times> u32" where
  "sha1_round w st i =
     (case st of (a, b, c, d, e) \<Rightarrow>
        (let (f, k) =
           (if i < 20 then ((b AND c) OR (NOT b AND d), 0x5A827999)
            else if i < 40 then (b XOR c XOR d, 0x6ED9EBA1)
            else if i < 60 then ((b AND c) OR (b AND d) OR (c AND d), 0x8F1BBCDC)
            else (b XOR c XOR d, 0xCA62C1D6));
           t = rotl 5 a + f + e + k + w ! i
         in (t, a, rotl 30 b, c, d)))"

definition sha1_block ::
  "u32 \<times> u32 \<times> u32 \<times> u32 \<times> u32 \<Rightarrow> string \<Rightarrow> u32 \<times> u32 \<times> u32 \<times> u32 \<times> u32" where
  "sha1_block st blk =
     (case st of (h0, h1, h2, h3, h4) \<Rightarrow>
        (case foldl (sha1_round (sha1_schedule 64 (map be_word (chunks 4 blk)))) st [0..<80] of
           (a, b, c, d, e) \<Rightarrow> (h0 + a, h1 + b, h2 + c, h3 + d, h4 + e)))"

definition sha1_Sum :: "string \<Rightarrow> string" where
  "sha1_Sum m =
     (case foldl sha1_block (0x67452301, 0xEFCDAB89, 0x98BADCFE, 0x10325476, 0xC3D2E1F0)
             (chunks 64 (sha1_pad m)) of
        (a, b, c, d, e) \<Rightarrow> concat (map (word_be_bytes 4) [a, b, c, d, e]))"

definition xor_byte :: "nat \<Rightarrow> char \<Rightarrow> char" where
  "xor_byte p c = char_of (of_char c XOR p)"

definition hmac_sha1 :: "string \<Rightarrow> string \<Rightarrow> string" where
  \<comment> \<open>\<open>mac := hmac.New(sha1.New, key); mac.Write(msg); mac.Sum(nil)\<close>\<close>
  "hmac_sha1 key msg =
     (let k = (if length key > 64 then sha1_Sum key else key);
          k' = k @ replicate (64 - length k) (CHR 0x00)
      in sha1_Sum (map (xor_byte 0x5c) k' @ sha1_Sum (map (xor_byte 0x36) k' @ msg)))"

section \<open>Package flickr\<close>

definition API_ENDPOINT :: string where
  "API_ENDPOINT = ''https://api.flickr.com/services/rest''"

definition AUTHORIZE_URL :: string where
  "AUTHORIZE_URL = ''https://www.flickr.com/services/oauth/authorize''"

definition REQUEST_TOKEN_URL :: string where
  "REQUEST_TOKEN_URL = ''https://www.flickr.com/services/oauth/request_token''"

definition ACCESS_TOKEN_URL :: string where
  "ACCESS_TOKEN_URL = ''https://www.flickr.com/services/oauth/access_token''"

subsection \<open>The environment\<close>

text \<open>
  What the code reads from outside: the numbers \<open>math/rand\<close> hands out after seeding
  (\<open>rand.Intn(n)\<close> is some number below \<open>n\<close>: the \<open>i\<close>-th draw is \<open>rand i mod n\<close>), the
  clock (\<open>time.Now().Unix()\<close>), and what a GET through the HTTP client yields: the call
  fails, or reading the body fails, or there is a body. Every function that may use the
  network also returns the list of requests it sent.
\<close>

record env =
  rand :: "nat \<Rightarrow> nat"
  now :: int

datatype http_result = GetFails go_error | ReadFails go_error | Body string

datatype http_call = HttpGet string

subsection \<open>The nonce\<close>

definition letters :: string where
  "letters = ''123456789abcdefghijkmnopqrstuvwxyzABCDEFGHJKLMNPQRSTUVWXYZ''"

definition generateNonce :: "(nat \<Rightarrow> nat) \<Rightarrow> string" where
  "generateNonce rnd = map (\<lambda>i. letters ! (rnd i mod length letters)) [0..<8]"

subsection \<open>The client\<close>

record FlickrClient =
  ApiKey :: string
  ApiSecret :: string
  HTTPClient :: "string \<Rightarrow> http_result"
  EndpointUrl :: string
  HTTPVerb :: string
  Args :: Values
  OAuthToken :: string
  OAuthTokenSecret :: string

definition NewFlickrClient :: "(string \<Rightarrow> http_result) \<Rightarrow> string \<Rightarrow> string \<Rightarrow> FlickrClient" where
  "NewFlickrClient http apiKey apiSecret =
     \<lparr>ApiKey = apiKey, ApiSecret = apiSecret, HTTPClient = http, EndpointUrl = [],
      HTTPVerb = ''GET'', Args = [], OAuthToken = [], OAuthTokenSecret = []\<rparr>"

definition GetUrl :: "FlickrClient \<Rightarrow> string" where
  "GetUrl c = EndpointUrl c @ ''?'' @ Values_Encode (Args c)"

definition ClearArgs :: "FlickrClient \<Rightarrow> FlickrClient" where
  "ClearArgs c = c\<lparr>Args := []\<rparr>"

definition SetDefaultArgs :: "env \<Rightarrow> FlickrClient \<Rightarrow> FlickrClient" where
  "SetDefaultArgs e c =
     (let a0 = [];
          a1 = Values_Add a0 ''oauth_version'' ''1.0'';
          a2 = Values_Add a1 ''oauth_signature_method'' ''HMAC-SHA1'';
          a3 = Values_Add a2 ''oauth_nonce'' (generateNonce (rand e));
          a4 = Values_Add a3 ''oauth_timestamp'' (FormatInt (now e))
      in c\<lparr>Args := a4\<rparr>)"

definition getSigningBaseString :: "FlickrClient \<Rightarrow> string" where
  "getSigningBaseString c =
     (let request_url = QueryEscape (EndpointUrl c);
          query = QueryEscape (Values_Encode (Args c))
      in HTTPVerb c @ ''&'' @ request_url @ ''&'' @ query)"

definition getSignature :: "FlickrClient \<Rightarrow> string \<Rightarrow> string" where
  "getSignature c token_secret =
     (let key = QueryEscape (ApiSecret c) @ ''&'' @ QueryEscape token_secret;
          base_string = getSigningBaseString c
      in EncodeToString (hmac_sha1 key base_string))"

definition Sign :: "string \<Rightarrow> FlickrClient \<Rightarrow> FlickrClient" where
  "Sign tokenSecret c =
     (let c1 = c\<lparr>Args := Values_Del (Args c) ''oauth_signature''\<rparr>
      in c1\<lparr>Args := Values_Set (Args c1) ''oauth_signature'' (getSignature c1 tokenSecret)\<rparr>)"

text \<open>
  \<open>getApiSignature\<close> reads \<open>c.Args[k][0]\<close> for every key: a key whose list of values is
  empty makes the index expression panic.
\<close>

fun apiSignatureLoop :: "Values \<Rightarrow> string list \<Rightarrow> string \<Rightarrow> go_error + string" where
  "apiSignatureLoop args [] buf = Inr buf"
| "apiSignatureLoop args (k # keys) buf =
     (case Values_index args k of
        [] \<Rightarrow> Inl IndexOutOfRange
      | arg # _ \<Rightarrow> apiSignatureLoop args keys (buf @ k @ arg))"

definition getApiSignature :: "FlickrClient \<Rightarrow> string \<Rightarrow> go_error + string" where
  "getApiSignature c token_secret =
     (case apiSignatureLoop (Args c) (sort (map fst (Args c))) token_secret of
        Inl e \<Rightarrow> Inl e
      | Inr base \<Rightarrow> Inr (hexString (md5_Sum base)))"

definition ApiSign :: "string \<Rightarrow> FlickrClient \<Rightarrow> go_error + FlickrClient" where
  "ApiSign tokenSecret c =
     (let c1 = c\<lparr>Args := Values_Del (Args c) ''api_sig''\<rparr>
      in case getApiSignature c1 tokenSecret of
           Inl e \<Rightarrow> Inl e
         | Inr sig \<Rightarrow> Inr (c1\<lparr>Args := Values_Set (Args c1) ''api_sig'' sig\<rparr>))"

definition andThen :: "go_error + 'a \<Rightarrow> ('a \<Rightarrow> go_error + 'b) \<Rightarrow> go_error + 'b" where
  \<comment> \<open>one call after another: a panic in the first ends the run\<close>
  "andThen r f = (case r of Inl e \<Rightarrow> Inl e | Inr x \<Rightarrow> f x)"

subsection \<open>Responses\<close>

record ErrorDetail =
  Code :: int
  Message :: string

record FlickrResponse =
  Status :: string
  Error :: ErrorDetail

definition HasErrors :: "FlickrResponse \<Rightarrow> bool" where
  "HasErrors r = (Status r = ''fail'')"

definition ErrorCode :: "FlickrResponse \<Rightarrow> int" where
  "ErrorCode r = Code (Error r)"

definition ErrorMsg :: "FlickrResponse \<Rightarrow> string" where
  "ErrorMsg r = Message (Error r)"

subsection \<open>Tokens\<close>

record RequestToken =
  OauthCallbackConfirmed :: bool
  OauthToken :: string
  OauthTokenSecret :: string
  OAuthProblem :: string

definition ParseRequestToken :: "string \<Rightarrow> RequestToken option \<times> go_error option" where
  "ParseRequestToken response =
     (case ParseQuery (TrimSpace response) of
        (val, Some err) \<Rightarrow> (None, Some err)
      | (val, None) \<Rightarrow>
          (let ret = \<lparr>OauthCallbackConfirmed = False, OauthToken = [], OauthTokenSecret = [],
                       OAuthProblem = []\<rparr>;
               oauth_problem = Values_Get val ''oauth_problem''
           in if oauth_problem \<noteq> [] then
                (Some (ret\<lparr>OAuthProblem := oauth_problem\<rparr>), Some (NewError 20))
              else
                (let confirmed = fst (ParseBool (Values_Get val ''oauth_callback_confirmed''))
                 in (Some (ret\<lparr>OauthCallbackConfirmed := confirmed,
                                 OauthToken := Values_Get val ''oauth_token'',
                                 OauthTokenSecret := Values_Get val ''oauth_token_secret''\<rparr>),
                     None))))"

text \<open>
  The access token. Its fields \<open>OAuthToken\<close>, \<open>OAuthTokenSecret\<close> and \<open>OAuthProblem\<close>
  carry a prime here: the client and the request token have fields of the same names.
\<close>

record OAuthToken =
  OAuthToken' :: string
  OAuthTokenSecret' :: string
  UserNsid :: string
  Username :: string
  Fullname :: string
  OAuthProblem' :: string

definition ParseOAuthToken :: "string \<Rightarrow> OAuthToken option \<times> go_error option" where
  "ParseOAuthToken response =
     (case ParseQuery (TrimSpace response) of
        (val, Some err) \<Rightarrow> (None, Some err)
      | (val, None) \<Rightarrow>
          (let ret = \<lparr>OAuthToken' = [], OAuthTokenSecret' = [], UserNsid = [], Username = [],
                       Fullname = [], OAuthProblem' = []\<rparr>;
               oauth_problem = Values_Get val ''oauth_problem''
           in if oauth_problem \<noteq> [] then
                (Some (ret\<lparr>OAuthProblem' := oauth_problem\<rparr>), Some (NewError 30))
              else
                (Some (ret\<lparr>OAuthToken' := Values_Get val ''oauth_token'',
                            OAuthTokenSecret' := Values_Get val ''oauth_token_secret'',
                            Fullname := Values_Get val ''fullname'',
                            UserNsid := Values_Get val ''user_nsid'',
                            Username := Values_Get val ''username''\<rparr>),
                 None)))"

subsection \<open>The token exchange\<close>

definition GetRequestToken ::
  "env \<Rightarrow> FlickrClient \<Rightarrow> FlickrClient \<times> http_call list \<times> (RequestToken option \<times> go_error option)" where
  "GetRequestToken e client =
     (let c1 = client\<lparr>EndpointUrl := REQUEST_TOKEN_URL\<rparr>;
          c2 = SetDefaultArgs e c1;
          c3 = c2\<lparr>Args := Values_Set (Args c2) ''oauth_consumer_key'' (ApiKey c2)\<rparr>;
          c4 = c3\<lparr>Args := Values_Set (Args c3) ''oauth_callback'' ''oob''\<rparr>;
          c5 = Sign [] c4
      in (c5, [HttpGet (GetUrl c5)],
          (case HTTPClient c5 (GetUrl c5) of
             GetFails err \<Rightarrow> (None, Some err)
           | ReadFails err \<Rightarrow> (None, Some err)
           | Body body \<Rightarrow> ParseRequestToken body)))"

definition GetAuthorizeUrl ::
  "FlickrClient \<Rightarrow> RequestToken \<Rightarrow> FlickrClient \<times> http_call list \<times> (string \<times> go_error option)" where
  "GetAuthorizeUrl client reqToken =
     (let c1 = client\<lparr>EndpointUrl := AUTHORIZE_URL\<rparr>;
          c2 = c1\<lparr>Args := []\<rparr>;
          c3 = c2\<lparr>Args := Values_Set (Args c2) ''oauth_token'' (OauthToken reqToken)\<rparr>;
          c4 = c3\<lparr>Args := Values_Set (Args c3) ''perms'' ''delete''\<rparr>
      in (c4, [], (GetUrl c4, None)))"

definition GetAccessToken ::
  "env \<Rightarrow> FlickrClient \<Rightarrow> RequestToken \<Rightarrow> string
     \<Rightarrow> FlickrClient \<times> http_call list \<times> (OAuthToken option \<times> go_error option)" where
  "GetAccessToken e client reqToken oauthVerifier =
     (let c1 = client\<lparr>EndpointUrl := ACCESS_TOKEN_URL\<rparr>;
          c2 = SetDefaultArgs e c1;
          c3 = c2\<lparr>Args := Values_Set (Args c2) ''oauth_verifier'' oauthVerifier\<rparr>;
          c4 = c3\<lparr>Args := Values_Set (Args c3) ''oauth_consumer_key'' (ApiKey c3)\<rparr>;
          c5 = c4\<lparr>Args := Values_Set (Args c4) ''oauth_token'' (OauthToken reqToken)\<rparr>;
          c6 = Sign (OauthTokenSecret reqToken) c5
      in (c6, [HttpGet (GetUrl c6)],
          (case HTTPClient c6 (GetUrl c6) of
             GetFails err \<Rightarrow> (None, Some err)
           | ReadFails err \<Rightarrow> (None, Some err)
           | Body body \<Rightarrow> ParseOAuthToken body)))"

section \<open>Package groups\<close>

record ThrottleInfo =
  Text :: string
  Count :: string
  Mode :: string
  Remaining :: string

record GroupInfo =
  ID :: string
  Throttle :: ThrottleInfo

record GroupInfoResponse =
  Group :: GroupInfo

definition CanAddPhotos :: "GroupInfoResponse \<Rightarrow> bool" where
  "CanAddPhotos g =
     (case Atoi (Remaining (Throttle (Group g))) of
        (val, None) \<Rightarrow> val > 0
      | (val, Some err) \<Rightarrow> False)"

section \<open>What the specification says, as definitions\<close>

text \<open>
  The definitions of this section are not translations of the code: they state what the
  specification describes, to be compared with the functions above.
\<close>

subsection \<open>The canonical query string\<close>

definition joinAmp :: "string list \<Rightarrow> string" where
  \<comment> \<open>the pieces with an \<open>&\<close> between neighbours\<close>
  "joinAmp ps = (case ps of [] \<Rightarrow> [] | p # qs \<Rightarrow> p @ concat (map (\<lambda>q. ''&'' @ q) qs))"

definition formPair :: "string \<times> string \<Rightarrow> string" where
  "formPair p = QueryEscape (fst p) @ ''='' @ QueryEscape (snd p)"

definition appendPair :: "string \<Rightarrow> string \<Rightarrow> string" where
  \<comment> \<open>what \<open>Encode\<close> does to its buffer for one pair\<close>
  "appendPair buf p = (if length buf > 0 then buf @ ''&'' else buf) @ p"

definition pairsByKey :: "Values \<Rightarrow> (string \<times> string) list" where
  \<comment> \<open>the parameters by ascending key, the values of one key in the order they are stored\<close>
  "pairsByKey v = concat (map (\<lambda>k. map (Pair k) (Values_index v k)) (sort (map fst v)))"

definition canonicalQueryString :: "Values \<Rightarrow> string" where
  "canonicalQueryString v = joinAmp (map formPair (pairsByKey v))"

definition allPairs :: "Values \<Rightarrow> (string \<times> string) list" where
  "allPairs v = concat (map (\<lambda>(k, vs). map (Pair k) vs) v)"

definition pairsByKeyThenValue :: "Values \<Rightarrow> (string \<times> string) list" where
  \<comment> \<open>the parameters by ascending key, ties broken by value: the order on pairs is lexicographic\<close>
  "pairsByKeyThenValue v = sort (allPairs v)"

definition claimedQueryString :: "Values \<Rightarrow> string" where
  "claimedQueryString v = joinAmp (map formPair (pairsByKeyThenValue v))"

definition claimedBaseString :: "FlickrClient \<Rightarrow> string" where
  "claimedBaseString c =
     HTTPVerb c @ ''&'' @ QueryEscape (EndpointUrl c) @ ''&''
       @ QueryEscape (claimedQueryString (Args c))"

subsection \<open>The string under the API signature\<close>

definition claimedApiBase :: "string \<Rightarrow> Values \<Rightarrow> string" where
  \<comment> \<open>the token secret, then key and value of every parameter, by ascending key\<close>
  "claimedApiBase token_secret v =
     token_secret @ concat (map (\<lambda>(k, x). k @ x) (sort_key fst (allPairs v)))"

definition firstValueBase :: "string \<Rightarrow> Values \<Rightarrow> string" where
  \<comment> \<open>the token secret, then every key with the first of its values, by ascending key\<close>
  "firstValueBase token_secret v =
     token_secret @ concat (map (\<lambda>k. k @ hd (Values_index v k)) (sort (map fst v)))"

subsection \<open>The parameters of the token requests\<close>

definition defaultArgs :: "env \<Rightarrow> Values" where
  "defaultArgs e =
     [(''oauth_version'', [''1.0'']), (''oauth_signature_method'', [''HMAC-SHA1'']),
      (''oauth_nonce'', [generateNonce (rand e)]), (''oauth_timestamp'', [FormatInt (now e)])]"

definition requestTokenArgs :: "env \<Rightarrow> FlickrClient \<Rightarrow> Values" where
  "requestTokenArgs e c =
     defaultArgs e @ [(''oauth_consumer_key'', [ApiKey c]), (''oauth_callback'', [''oob''])]"

definition accessTokenArgs :: "env \<Rightarrow> FlickrClient \<Rightarrow> RequestToken \<Rightarrow> string \<Rightarrow> Values" where
  "accessTokenArgs e c reqToken oauthVerifier =
     defaultArgs e @ [(''oauth_verifier'', [oauthVerifier]), (''oauth_consumer_key'', [ApiKey c]),
       (''oauth_token'', [OauthToken reqToken])]"

definition claimedRequestTokenBase :: "env \<Rightarrow> FlickrClient \<Rightarrow> string" where
  \<comment> \<open>what is signed for a request token: verb GET, the request-token URL, the parameters\<close>
  "claimedRequestTokenBase e c =
     ''GET'' @ ''&'' @ QueryEscape REQUEST_TOKEN_URL @ ''&''
       @ QueryEscape (canonicalQueryString (requestTokenArgs e c))"

subsection \<open>Decimal integers\<close>

text \<open>
  A decimal integer is an optional sign followed by one or more decimal digits; its value
  is read off the digits from left to right.
\<close>

definition isDigit :: "char \<Rightarrow> bool" where
  "isDigit c = (CHR ''0'' \<le> c \<and> c \<le> CHR ''9'')"

definition digitStep :: "int \<Rightarrow> char \<Rightarrow> int" where
  "digitStep n c = n * 10 + (of_char c - 48)"

definition digitsValue :: "string \<Rightarrow> int" where
  "digitsValue ds = foldl digitStep 0 ds"

definition isDecimal :: "string \<Rightarrow> bool" where
  "isDecimal s =
     (case s of
        [] \<Rightarrow> False
      | c # ds \<Rightarrow>
          if c = CHR ''+'' \<or> c = CHR ''-'' then ds \<noteq> [] \<and> list_all isDigit ds
          else list_all isDigit (c # ds))"

definition decimalValue :: "string \<Rightarrow> int" where
  "decimalValue s =
     (case s of
        [] \<Rightarrow> 0
      | c # ds \<Rightarrow>
          if c = CHR ''-'' then - digitsValue ds
          else if c = CHR ''+'' then digitsValue ds
          else digitsValue (c # ds))"

definition fitsInt64 :: "int \<Rightarrow> bool" where
  "fitsInt64 n = (- 9223372036854775808 \<le> n \<and> n \<le> 9223372036854775807)"

definition groupWith :: "string \<Rightarrow> GroupInfoResponse" where
  \<comment> \<open>a response whose throttle has the given \<open>remaining\<close> attribute\<close>
  "groupWith r =
     \<lparr>Group = \<lparr>ID = [], Throttle = \<lparr>Text = [], Count = [], Mode = [], Remaining = r\<rparr>\<rparr>\<rparr>"

subsection \<open>Characters\<close>

definition isAlnum :: "char \<Rightarrow> bool" where
  "isAlnum c = ((CHR ''a'' \<le> c \<and> c \<le> CHR ''z'') \<or> (CHR ''A'' \<le> c \<and> c \<le> CHR ''Z'')
     \<or> (CHR ''0'' \<le> c \<and> c \<le> CHR ''9''))"

subsection \<open>Example clients\<close>

text \<open>
  A client whose parameter \<open>a\<close> was added twice, with the values 2 and 1 in this order, and
  one whose parameter \<open>a\<close> holds the empty list of values.
\<close>

definition twoValues :: FlickrClient where
  "twoValues =
     \<lparr>ApiKey = ''k'', ApiSecret = ''s'', HTTPClient = Body, EndpointUrl = ''e'',
      HTTPVerb = ''GET'', Args = Values_Add (Values_Add [] ''a'' ''2'') ''a'' ''1'',
      OAuthToken = [], OAuthTokenSecret = []\<rparr>"

definition noValue :: FlickrClient where
  "noValue = twoValues\<lparr>Args := [(''a'', [])]\<rparr>"

text \<open>
  A client whose verb is POST, as the functions of package \<open>groups\<close> leave the client they
  are given (\<open>client.HTTPVerb = "POST"\<close>); a random source that always returns 0 and a
  clock at 0; a request token.
\<close>

definition postClient :: FlickrClient where
  "postClient = (NewFlickrClient Body ''k'' ''s'')\<lparr>HTTPVerb := ''POST''\<rparr>"

definition zeroEnv :: env where
  "zeroEnv = \<lparr>rand = (\<lambda>i. 0), now = 0\<rparr>"

definition tokenT1 :: RequestToken where
  "tokenT1 =
     \<lparr>OauthCallbackConfirmed = True, OauthToken = ''T1'', OauthTokenSecret = ''S1'',
      OAuthProblem = []\<rparr>"

section \<open>Properties\<close>

subsection \<open>Parameter sets\<close>

lemma Values_Del_Set_same: "Values_Del (Values_Set v k x) k = Values_Del v k"
  by (simp add: Values_Del_def Values_Set_def delete_update_same)

lemma Values_Del_idem: "Values_Del (Values_Del v k) k = Values_Del v k"
  by (simp add: Values_Del_def delete_idem)

lemma Values_index_Set: "Values_index (Values_Set v k x) k = [x]"
  by (simp add: Values_index_def Values_Set_def update_conv')

lemma Values_Get_Set: "Values_Get (Values_Set v k x) k = x"
  by (simp add: Values_Get_def Values_index_Set)

lemma Values_Del_absent: "k \<notin> fst ` set (Values_Del v k)"
  by (simp add: Values_Del_def delete_notin_dom)

lemma Values_index_in_set: "k \<in> fst ` set v \<Longrightarrow> (k, Values_index v k) \<in> set v"
  by (auto simp: Values_index_def map_of_eq_None_iff split: option.splits dest: map_of_SomeD)

lemma Values_Del_valued:
  "list_all (\<lambda>(k, vs). vs \<noteq> []) v \<Longrightarrow> list_all (\<lambda>(k, vs). vs \<noteq> []) (Values_Del v key)"
  by (auto simp: Values_Del_def AList.delete_eq list_all_iff)

lemma sort_keys_same:
  assumes "wf_Values a" "wf_Values b" "set a = set b"
  shows "sort (map fst a) = sort (map fst b)"
proof (rule sorted_distinct_set_unique)
  show "distinct (sort (map fst a))" "distinct (sort (map fst b))"
    using assms by (simp_all add: wf_Values_def)
  show "set (sort (map fst a)) = set (sort (map fst b))"
    using assms by simp
qed simp_all

lemma Values_index_same:
  assumes "wf_Values a" "wf_Values b" "set a = set b"
  shows "Values_index a k = Values_index b k"
proof -
  have "map_of a = map_of b"
    using assms by (simp add: wf_Values_def map_of_inject_set)
  then show ?thesis by (simp add: Values_index_def)
qed

subsection \<open>Encoding a parameter set\<close>

lemma foldl_appendPair:
  "list_all (\<lambda>p. p \<noteq> []) ps \<Longrightarrow>
   foldl appendPair buf ps =
     (if buf = [] then joinAmp ps else buf @ concat (map (\<lambda>q. ''&'' @ q) ps))"
  by (induction ps arbitrary: buf) (auto simp: appendPair_def joinAmp_def)

lemma encodeValues_foldl:
  "encodeValues ke vs buf = foldl appendPair buf (map (\<lambda>x. ke @ ''='' @ QueryEscape x) vs)"
  by (induction vs arbitrary: buf) (auto simp: appendPair_def)

lemma encodeKeys_foldl:
  "encodeKeys v keys buf =
     foldl appendPair buf
       (map formPair (concat (map (\<lambda>k. map (Pair k) (Values_index v k)) keys)))"
  by (induction keys arbitrary: buf) (auto simp: encodeValues_foldl formPair_def comp_def)

lemma Values_Encode_canonical: "Values_Encode v = canonicalQueryString v"
proof -
  have "list_all (\<lambda>p. p \<noteq> []) (map formPair (pairsByKey v))"
    by (simp add: list_all_iff formPair_def)
  then show ?thesis
    by (simp add: Values_Encode_def canonicalQueryString_def encodeKeys_foldl pairsByKey_def
        foldl_appendPair)
qed

lemma pairsByKey_keys: "fst ` set (pairsByKey v) \<subseteq> fst ` set v"
  by (force simp: pairsByKey_def)

lemma QueryEscape_plain: "list_all (\<lambda>c. \<not> shouldEscape c) s \<Longrightarrow> QueryEscape s = s"
  by (induction s) auto

text \<open>
  Where the keys are distinct and the values of every key are stored in ascending order,
  as they are when every key has one value, walking the keys in order and the values as
  stored is sorting the parameters by key and then by value.
\<close>

lemma mset_concat_map:
  "mset (concat (map f xs)) = (\<Sum>x\<in>#mset xs. mset (f x))"
  by (induction xs) simp_all

lemma mset_concat_map_sort:
  "mset (concat (map f (sort ks))) = mset (concat (map f ks))"
  by (simp add: mset_concat_map)

lemma Values_index_wf: "wf_Values v \<Longrightarrow> (k, vs) \<in> set v \<Longrightarrow> Values_index v k = vs"
  by (simp add: wf_Values_def Values_index_def)

lemma allPairs_by_key:
  assumes "wf_Values v"
  shows "allPairs v = concat (map (\<lambda>k. map (Pair k) (Values_index v k)) (map fst v))"
proof -
  have "(case p of (k, vs) \<Rightarrow> map (Pair k) vs) = map (Pair (fst p)) (Values_index v (fst p))"
    if "p \<in> set v" for p
    using Values_index_wf [OF assms, of "fst p" "snd p"] that by (cases p) simp
  then have "map (\<lambda>(k, vs). map (Pair k) vs) v
      = map (\<lambda>p. map (Pair (fst p)) (Values_index v (fst p))) v"
    by (intro map_cong) simp_all
  then have "allPairs v = concat (map (\<lambda>p. map (Pair (fst p)) (Values_index v (fst p))) v)"
    unfolding allPairs_def by (rule arg_cong)
  also have "\<dots> = concat (map (\<lambda>k. map (Pair k) (Values_index v k)) (map fst v))"
    by (simp add: comp_def)
  finally show ?thesis .
qed

lemma mset_pairsByKey: "wf_Values v \<Longrightarrow> mset (pairsByKey v) = mset (allPairs v)"
  by (simp add: allPairs_by_key pairsByKey_def mset_concat_map_sort del: map_map)

lemma sorted_map_Pair: "sorted (map (Pair k) xs) = sorted xs"
  by (induction xs) (auto simp: less_eq_prod_simp)

lemma sorted_concat_keys:
  "sorted ks \<Longrightarrow> distinct ks \<Longrightarrow> (\<And>k. k \<in> set ks \<Longrightarrow> sorted (g k)) \<Longrightarrow>
   sorted (concat (map (\<lambda>k. map (Pair k) (g k)) ks))"
proof (induction ks)
  case Nil
  then show ?case by simp
next
  case (Cons k ks)
  have later: "k < k'" if "k' \<in> set ks" for k'
    using Cons.prems(1,2) that by (auto simp: less_le)
  have "sorted (concat (map (\<lambda>k. map (Pair k) (g k)) ks))"
    using Cons by simp
  moreover have "sorted (map (Pair k) (g k))"
    using Cons.prems(3) by (simp add: sorted_map_Pair)
  moreover have "x \<le> y" if "x \<in> set (map (Pair k) (g k))"
      and "y \<in> set (concat (map (\<lambda>k. map (Pair k) (g k)) ks))" for x y
    using that later by (auto simp: less_eq_prod_simp)
  ultimately show ?case
    by (simp add: sorted_append del: set_map set_concat)
qed

lemma sorted_pairsByKey:
  assumes "wf_Values v" "list_all (\<lambda>(k, vs). sorted vs) v"
  shows "sorted (pairsByKey v)"
  unfolding pairsByKey_def
proof (rule sorted_concat_keys)
  show "sorted (sort (map fst v))" by simp
  show "distinct (sort (map fst v))" using assms(1) by (simp add: wf_Values_def)
next
  fix k assume "k \<in> set (sort (map fst v))"
  then have "(k, Values_index v k) \<in> set v"
    by (simp add: Values_index_in_set)
  then show "sorted (Values_index v k)"
    using assms(2) by (auto simp: list_all_iff)
qed

lemma claimed_pairs_when_sorted:
  assumes "wf_Values v" "list_all (\<lambda>(k, vs). sorted vs) v"
  shows "pairsByKeyThenValue v = pairsByKey v"
  unfolding pairsByKeyThenValue_def
  using mset_pairsByKey [OF assms(1)] sorted_pairsByKey [OF assms]
  by (rule properties_for_sort)

lemma claimed_query_when_sorted:
  "wf_Values v \<Longrightarrow> list_all (\<lambda>(k, vs). sorted vs) v \<Longrightarrow>
   claimedQueryString v = Values_Encode v"
  by (simp add: claimedQueryString_def Values_Encode_canonical canonicalQueryString_def
      claimed_pairs_when_sorted)

subsection \<open>Signing\<close>

lemma Sign_Args:
  "Args (Sign ts c) =
     Values_Set (Values_Del (Args c) ''oauth_signature'') ''oauth_signature''
       (getSignature (c\<lparr>Args := Values_Del (Args c) ''oauth_signature''\<rparr>) ts)"
  by (simp add: Sign_def Let_def)

lemma Sign_stale: "Sign ts (c\<lparr>Args := Values_Set (Args c) ''oauth_signature'' x\<rparr>) = Sign ts c"
  by (simp add: Sign_def Let_def Values_Del_Set_same)

lemma Sign_twice: "Sign ts (Sign ts c) = Sign ts c"
  by (simp add: Sign_def Let_def Values_Del_Set_same Values_Del_idem)

lemma ApiSign_stale: "ApiSign ts (c\<lparr>Args := Values_Set (Args c) ''api_sig'' x\<rparr>) = ApiSign ts c"
  by (simp add: ApiSign_def Let_def Values_Del_Set_same)

lemma ApiSign_twice: "andThen (ApiSign ts c) (ApiSign ts) = ApiSign ts c"
  by (simp add: ApiSign_def andThen_def Let_def Values_Del_Set_same Values_Del_idem
      split: sum.splits)

text \<open>
  C3. Signing twice in a row is signing once, for \<open>Sign\<close> and for \<open>ApiSign\<close> (where a
  panic of the first call ends the run): the client after the second call is the client
  after the first. A signature already among the parameters, whatever its value, leaves no
  trace in the result, and the signature stored by the second \<open>Sign\<close> is the signature of
  the parameters without any signature.
\<close>

theorem signing_twice:
  "Sign ts (Sign ts c) = Sign ts c
   \<and> andThen (ApiSign ts c) (ApiSign ts) = ApiSign ts c
   \<and> Sign ts (c\<lparr>Args := Values_Set (Args c) ''oauth_signature'' x\<rparr>) = Sign ts c
   \<and> ApiSign ts (c\<lparr>Args := Values_Set (Args c) ''api_sig'' x\<rparr>) = ApiSign ts c
   \<and> Values_Get (Args (Sign ts (Sign ts c))) ''oauth_signature''
       = getSignature (c\<lparr>Args := Values_Del (Args c) ''oauth_signature''\<rparr>) ts"
  by (simp add: Sign_twice ApiSign_twice Sign_stale ApiSign_stale Sign_Args Values_Get_Set)

text \<open>
  C1, as the code has it. \<open>Sign\<close> stores under \<open>oauth_signature\<close> the base64 encoding of
  the HMAC-SHA1 digest, under the key \<open>urlEncode(appSecret)&urlEncode(tokenSecret)\<close>, of
  the base string \<open>VERB&urlEncode(endpointURL)&urlEncode(canonicalQueryString)\<close>. The
  canonical query string is the form encoding of the parameters by ascending key, the
  values of one key in the order in which they are stored. The parameters it is computed
  from do not hold \<open>oauth_signature\<close>, and all other parameters are left as they were.
  Where the keys are distinct and the values of every key are stored in ascending order,
  the canonical query string is the one with ties broken by value.
\<close>

theorem Sign_stores_signature:
  "Values_index (Args (Sign ts c)) ''oauth_signature'' =
     [EncodeToString
        (hmac_sha1 (QueryEscape (ApiSecret c) @ ''&'' @ QueryEscape ts)
           (HTTPVerb c @ ''&'' @ QueryEscape (EndpointUrl c) @ ''&''
              @ QueryEscape (canonicalQueryString (Values_Del (Args c) ''oauth_signature''))))]
   \<and> ''oauth_signature'' \<notin> fst ` set (Values_Del (Args c) ''oauth_signature'')
   \<and> ''oauth_signature'' \<notin> fst ` set (pairsByKey (Values_Del (Args c) ''oauth_signature''))
   \<and> Values_Del (Args (Sign ts c)) ''oauth_signature'' = Values_Del (Args c) ''oauth_signature''
   \<and> (wf_Values v \<and> list_all (\<lambda>(k, vs). sorted vs) v \<longrightarrow>
        canonicalQueryString v = claimedQueryString v)"
proof -
  have "''oauth_signature'' \<notin> fst ` set (pairsByKey (Values_Del (Args c) ''oauth_signature''))"
    using pairsByKey_keys [of "Values_Del (Args c) ''oauth_signature''"]
      Values_Del_absent [of "''oauth_signature''" "Args c"] by blast
  moreover have "canonicalQueryString v = claimedQueryString v"
    if "wf_Values v \<and> list_all (\<lambda>(k, vs). sorted vs) v"
    using that by (simp add: claimed_query_when_sorted Values_Encode_canonical [symmetric])
  ultimately show ?thesis
    by (simp add: Sign_Args Values_index_Set Values_Del_Set_same Values_Del_absent
        Values_Del_idem getSignature_def getSigningBaseString_def Values_Encode_canonical Let_def)
qed

text \<open>
  The theorem at a client with the parameters \<open>b=2\<close>, \<open>a=1\<close> and \<open>a=3\<close>, signed with the
  token secret \<open>t\<close>: the keys are distinct and the values of \<open>a\<close> ascend.
\<close>

theorem Sign_stores_signature_witness:
  "wf_Values [(''b'', [''2'']), (''a'', [''1'', ''3''])]
   \<and> list_all (\<lambda>(k, vs). sorted vs) [(''b'', [''2'']), (''a'', [''1'', ''3''])]
   \<and> canonicalQueryString [(''b'', [''2'']), (''a'', [''1'', ''3''])]
       = claimedQueryString [(''b'', [''2'']), (''a'', [''1'', ''3''])]
   \<and> canonicalQueryString [(''b'', [''2'']), (''a'', [''1'', ''3''])] = ''a=1&a=3&b=2''
   \<and> Values_index
        (Args (Sign ''t'' (twoValues\<lparr>Args := [(''b'', [''2'']), (''a'', [''1'', ''3''])]\<rparr>)))
        ''oauth_signature''
       = [EncodeToString (hmac_sha1 ''s&t'' ''GET&e&a%3D1%26a%3D3%26b%3D2'')]"
proof -
  have wf: "wf_Values [(''b'', [''2'']), (''a'', [''1'', ''3''])]"
    by (simp add: wf_Values_def)
  have asc: "list_all (\<lambda>(k, vs). sorted vs) [(''b'', [''2'']), (''a'', [''1'', ''3''])]"
    by simp
  have canon: "canonicalQueryString [(''b'', [''2'']), (''a'', [''1'', ''3''])] = ''a=1&a=3&b=2''"
    by code_simp
  have key: "QueryEscape (ApiSecret (twoValues\<lparr>Args := [(''b'', [''2'']), (''a'', [''1'', ''3''])]\<rparr>))
      @ ''&'' @ QueryEscape ''t'' = ''s&t''"
    by (simp add: twoValues_def shouldEscape_def)
  have base: "HTTPVerb (twoValues\<lparr>Args := [(''b'', [''2'']), (''a'', [''1'', ''3''])]\<rparr>) @ ''&''
      @ QueryEscape (EndpointUrl (twoValues\<lparr>Args := [(''b'', [''2'']), (''a'', [''1'', ''3''])]\<rparr>))
      @ ''&'' @ QueryEscape ''a=1&a=3&b=2'' = ''GET&e&a%3D1%26a%3D3%26b%3D2''"
    by (simp add: twoValues_def shouldEscape_def upperhex_def)
  have args: "Args (twoValues\<lparr>Args := [(''b'', [''2'']), (''a'', [''1'', ''3''])]\<rparr>)
      = [(''b'', [''2'']), (''a'', [''1'', ''3''])]"
    by simp
  have del: "Values_Del [(''b'', [''2'']), (''a'', [''1'', ''3''])] ''oauth_signature''
      = [(''b'', [''2'']), (''a'', [''1'', ''3''])]"
    by (simp add: Values_Del_def)
  from Sign_stores_signature
      [of "''t''" "twoValues\<lparr>Args := [(''b'', [''2'']), (''a'', [''1'', ''3''])]\<rparr>"
        "[(''b'', [''2'']), (''a'', [''1'', ''3''])]"]
  have stored: "Values_index
        (Args (Sign ''t'' (twoValues\<lparr>Args := [(''b'', [''2'']), (''a'', [''1'', ''3''])]\<rparr>)))
        ''oauth_signature'' =
     [EncodeToString
        (hmac_sha1
           (QueryEscape (ApiSecret (twoValues\<lparr>Args := [(''b'', [''2'']), (''a'', [''1'', ''3''])]\<rparr>))
              @ ''&'' @ QueryEscape ''t'')
           (HTTPVerb (twoValues\<lparr>Args := [(''b'', [''2'']), (''a'', [''1'', ''3''])]\<rparr>) @ ''&''
              @ QueryEscape (EndpointUrl (twoValues\<lparr>Args := [(''b'', [''2'']), (''a'', [''1'', ''3''])]\<rparr>))
              @ ''&''
              @ QueryEscape (canonicalQueryString
                  (Values_Del (Args (twoValues\<lparr>Args := [(''b'', [''2'']), (''a'', [''1'', ''3''])]\<rparr>))
                     ''oauth_signature''))))]"
    and agree: "wf_Values [(''b'', [''2'']), (''a'', [''1'', ''3''])]
        \<and> list_all (\<lambda>(k, vs). sorted vs) [(''b'', [''2'']), (''a'', [''1'', ''3''])] \<longrightarrow>
        canonicalQueryString [(''b'', [''2'']), (''a'', [''1'', ''3''])]
          = claimedQueryString [(''b'', [''2'']), (''a'', [''1'', ''3''])]"
    by blast+
  have "Values_index
        (Args (Sign ''t'' (twoValues\<lparr>Args := [(''b'', [''2'']), (''a'', [''1'', ''3''])]\<rparr>)))
        ''oauth_signature''
       = [EncodeToString (hmac_sha1 ''s&t'' ''GET&e&a%3D1%26a%3D3%26b%3D2'')]"
    by (simp only: stored args del canon key base)
  with wf asc agree canon show ?thesis by blast
qed

text \<open>
  C1 as stated fails where a key holds two values that are not in ascending order. After
  \<open>Args.Add("a", "2")\<close> and \<open>Args.Add("a", "1")\<close> the base string that is signed ends in
  \<open>a=2&a=1\<close> (escaped), while with ties broken by value it would end in \<open>a=1&a=2\<close>.
\<close>

theorem Sign_ties_counterexample:
  "Args twoValues = [(''a'', [''2'', ''1''])]
   \<and> getSigningBaseString twoValues = ''GET&e&a%3D2%26a%3D1''
   \<and> claimedBaseString twoValues = ''GET&e&a%3D1%26a%3D2''
   \<and> getSigningBaseString (twoValues\<lparr>Args := Values_Del (Args twoValues) ''oauth_signature''\<rparr>)
       \<noteq> claimedBaseString (twoValues\<lparr>Args := Values_Del (Args twoValues) ''oauth_signature''\<rparr>)"
  by code_simp

subsection \<open>The API signature\<close>

lemma apiSignatureLoop_first:
  "list_all (\<lambda>k. Values_index args k \<noteq> []) keys \<Longrightarrow>
   apiSignatureLoop args keys buf =
     Inr (buf @ concat (map (\<lambda>k. k @ hd (Values_index args k)) keys))"
  by (induction keys arbitrary: buf) (auto split: list.splits)

lemma apiSignatureLoop_cong:
  "(\<And>k. Values_index a k = Values_index b k) \<Longrightarrow>
   apiSignatureLoop a keys buf = apiSignatureLoop b keys buf"
  by (induction keys arbitrary: buf) (auto split: list.splits)

lemma all_keys_valued:
  assumes "list_all (\<lambda>(k, vs). vs \<noteq> []) v"
  shows "list_all (\<lambda>k. Values_index v k \<noteq> []) (sort (map fst v))"
proof -
  have "Values_index v k \<noteq> []" if "k \<in> fst ` set v" for k
    using Values_index_in_set [OF that] assms by (auto simp: list_all_iff)
  then show ?thesis by (simp add: list_all_iff)
qed

lemma getApiSignature_first:
  "list_all (\<lambda>(k, vs). vs \<noteq> []) (Args c) \<Longrightarrow>
   getApiSignature c ts = Inr (hexString (md5_Sum (firstValueBase ts (Args c))))"
  by (simp add: getApiSignature_def firstValueBase_def apiSignatureLoop_first all_keys_valued)

lemma getApiSignature_order:
  assumes "wf_Values a" "wf_Values b" "set a = set b"
  shows "getApiSignature (c\<lparr>Args := a\<rparr>) ts = getApiSignature (c\<lparr>Args := b\<rparr>) ts"
  using sort_keys_same [OF assms] apiSignatureLoop_cong [of a b, OF Values_index_same [OF assms]]
  by (simp add: getApiSignature_def)

text \<open>
  Where the keys are distinct and every key has exactly one value, the string that is
  hashed is the token secret followed by key and value of every parameter, by ascending
  key.
\<close>

lemma insort_key_map:
  "insort_key f (g x) (map g xs) = map g (insort_key (\<lambda>y. f (g y)) x xs)"
  by (induction xs) simp_all

lemma sort_key_map: "sort_key f (map g xs) = map g (sort_key (\<lambda>y. f (g y)) xs)"
  by (induction xs) (simp_all add: insort_key_map)

lemma single_values_pairs:
  "(\<And>k. k \<in> set ks \<Longrightarrow> length (g k) = 1) \<Longrightarrow>
   concat (map (\<lambda>k. map (Pair k) (g k)) ks) = map (\<lambda>k. (k, hd (g k))) ks"
proof (induction ks)
  case Nil
  then show ?case by simp
next
  case (Cons k ks)
  then have "length (g k) = 1" by simp
  then have "g k = [hd (g k)]" by (cases "g k") simp_all
  then have "map (Pair k) (g k) = [(k, hd (g k))]" by (metis list.simps(8,9))
  with Cons show ?case by simp
qed

lemma claimed_api_base_when_single:
  assumes "wf_Values v" "list_all (\<lambda>(k, vs). length vs = 1) v"
  shows "claimedApiBase ts v = firstValueBase ts v"
proof -
  have one: "length (Values_index v k) = 1" if "k \<in> set (map fst v)" for k
  proof -
    from that have "(k, Values_index v k) \<in> set v" by (simp add: Values_index_in_set)
    then show ?thesis using assms(2) by (auto simp: list_all_iff)
  qed
  have "allPairs v = map (\<lambda>k. (k, hd (Values_index v k))) (map fst v)"
    using single_values_pairs [of "map fst v" "Values_index v", OF one]
    by (simp only: allPairs_by_key [OF assms(1)])
  then have "sort_key fst (allPairs v) = map (\<lambda>k. (k, hd (Values_index v k))) (sort (map fst v))"
    by (simp only: sort_key_map fst_conv)
  then show ?thesis
    by (simp add: claimedApiBase_def firstValueBase_def comp_def)
qed

text \<open>
  C2, as the code has it. When every key of the parameter set holds at least one value,
  \<open>ApiSign\<close> stores under \<open>api_sig\<close> the lower-case hex MD5 digest of the token secret
  followed by every key and the first of its values, the keys in ascending order, nothing
  in between. Two parameter sets that hold the same keys with the same values, in whatever
  order they were inserted, get the same signature. Where the keys are distinct and every
  key has exactly one value, the string that is hashed is the one the specification
  describes.
\<close>

theorem ApiSign_stores_signature:
  "(list_all (\<lambda>(k, vs). vs \<noteq> []) (Args c) \<longrightarrow>
      ApiSign ts c =
        Inr (c\<lparr>Args := Values_Set (Values_Del (Args c) ''api_sig'') ''api_sig''
               (hexString (md5_Sum (firstValueBase ts (Values_Del (Args c) ''api_sig''))))\<rparr>))
   \<and> (wf_Values a \<and> wf_Values b \<and> set a = set b \<longrightarrow>
        getApiSignature (c\<lparr>Args := a\<rparr>) ts = getApiSignature (c\<lparr>Args := b\<rparr>) ts)
   \<and> (wf_Values a \<and> list_all (\<lambda>(k, vs). length vs = 1) a \<longrightarrow>
        firstValueBase ts a = claimedApiBase ts a)"
proof (intro conjI impI)
  assume "wf_Values a \<and> list_all (\<lambda>(k, vs). length vs = 1) a"
  then show "firstValueBase ts a = claimedApiBase ts a"
    by (simp add: claimed_api_base_when_single)
next
  assume "list_all (\<lambda>(k, vs). vs \<noteq> []) (Args c)"
  then have "list_all (\<lambda>(k, vs). vs \<noteq> []) (Values_Del (Args c) ''api_sig'')"
    by (rule Values_Del_valued)
  then show "ApiSign ts c =
        Inr (c\<lparr>Args := Values_Set (Values_Del (Args c) ''api_sig'') ''api_sig''
               (hexString (md5_Sum (firstValueBase ts (Values_Del (Args c) ''api_sig''))))\<rparr>)"
    by (simp add: ApiSign_def Let_def getApiSignature_first)
next
  assume "wf_Values a \<and> wf_Values b \<and> set a = set b"
  then show "getApiSignature (c\<lparr>Args := a\<rparr>) ts = getApiSignature (c\<lparr>Args := b\<rparr>) ts"
    by (simp add: getApiSignature_order)
qed

text \<open>
  The theorem at the specification's example: the parameter sets \<open>{b:2, a:1}\<close> and
  \<open>{a:1, b:2}\<close> with the token secret \<open>s\<close>; the digest is that of \<open>sa1b2\<close>.
\<close>

theorem ApiSign_stores_signature_witness:
  "list_all (\<lambda>(k, vs). vs \<noteq> []) (Args (twoValues\<lparr>Args := [(''b'', [''2'']), (''a'', [''1''])]\<rparr>))
   \<and> ApiSign ''s'' (twoValues\<lparr>Args := [(''b'', [''2'']), (''a'', [''1''])]\<rparr>) =
       Inr (twoValues\<lparr>Args := [(''b'', [''2'']), (''a'', [''1'']),
              (''api_sig'', [hexString (md5_Sum ''sa1b2'')])]\<rparr>)
   \<and> wf_Values [(''b'', [''2'']), (''a'', [''1''])] \<and> wf_Values [(''a'', [''1'']), (''b'', [''2''])]
   \<and> set [(''b'', [''2'']), (''a'', [''1''])] = set [(''a'', [''1'']), (''b'', [''2''])]
   \<and> getApiSignature (twoValues\<lparr>Args := [(''b'', [''2'']), (''a'', [''1''])]\<rparr>) ''s''
       = getApiSignature (twoValues\<lparr>Args := [(''a'', [''1'']), (''b'', [''2''])]\<rparr>) ''s''
   \<and> list_all (\<lambda>(k, vs). length vs = 1) [(''b'', [''2'']), (''a'', [''1''])]
   \<and> firstValueBase ''s'' [(''b'', [''2'']), (''a'', [''1''])]
       = claimedApiBase ''s'' [(''b'', [''2'']), (''a'', [''1''])]"
proof -
  have single: "list_all (\<lambda>(k, vs). length vs = 1) [(''b'', [''2'']), (''a'', [''1''])]"
    by simp
  have valued:
    "list_all (\<lambda>(k, vs). vs \<noteq> []) (Args (twoValues\<lparr>Args := [(''b'', [''2'']), (''a'', [''1''])]\<rparr>))"
    by simp
  have same:
    "wf_Values [(''b'', [''2'']), (''a'', [''1''])] \<and> wf_Values [(''a'', [''1'']), (''b'', [''2''])]
      \<and> set [(''b'', [''2'']), (''a'', [''1''])] = set [(''a'', [''1'']), (''b'', [''2''])]"
    by (auto simp: wf_Values_def)
  have base: "firstValueBase ''s'' [(''b'', [''2'']), (''a'', [''1''])] = ''sa1b2''"
    by code_simp
  from ApiSign_stores_signature
      [of "twoValues\<lparr>Args := [(''b'', [''2'']), (''a'', [''1''])]\<rparr>" "''s''"
        "[(''b'', [''2'']), (''a'', [''1''])]" "[(''a'', [''1'']), (''b'', [''2''])]"]
    valued same
  have "ApiSign ''s'' (twoValues\<lparr>Args := [(''b'', [''2'']), (''a'', [''1''])]\<rparr>) =
       Inr (twoValues\<lparr>Args :=
          Values_Set (Values_Del [(''b'', [''2'']), (''a'', [''1''])] ''api_sig'') ''api_sig''
           (hexString (md5_Sum (firstValueBase ''s''
              (Values_Del [(''b'', [''2'']), (''a'', [''1''])] ''api_sig''))))\<rparr>)"
    and eq: "getApiSignature (twoValues\<lparr>Args := [(''b'', [''2'']), (''a'', [''1''])]\<rparr>) ''s''
       = getApiSignature (twoValues\<lparr>Args := [(''a'', [''1'']), (''b'', [''2''])]\<rparr>) ''s''"
    and claimed: "firstValueBase ''s'' [(''b'', [''2'']), (''a'', [''1''])]
       = claimedApiBase ''s'' [(''b'', [''2'']), (''a'', [''1''])]"
    using single by simp_all
  then have "ApiSign ''s'' (twoValues\<lparr>Args := [(''b'', [''2'']), (''a'', [''1''])]\<rparr>) =
       Inr (twoValues\<lparr>Args := [(''b'', [''2'']), (''a'', [''1'']),
              (''api_sig'', [hexString (md5_Sum ''sa1b2'')])]\<rparr>)"
    by (simp add: Values_Del_def Values_Set_def base)
  with valued same eq single claimed show ?thesis by blast
qed

text \<open>
  C2 as stated fails where a key holds more than one value, and where a key holds none.
  With \<open>a\<close> holding 2 and 1 and the token secret \<open>s\<close>, the parameters are \<open>a=2\<close> and
  \<open>a=1\<close> and the claimed digest is that of \<open>sa2a1\<close>; the code stores the digest of
  \<open>sa2\<close>. With \<open>a\<close> holding no value the code panics and stores nothing.
\<close>

theorem ApiSign_first_value_counterexample:
  "Args twoValues = [(''a'', [''2'', ''1''])]
   \<and> claimedApiBase ''s'' (Args twoValues) = ''sa2a1''
   \<and> hexString (md5_Sum ''sa2a1'') = ''55e2dce8ce7fa214049d735339c75a63''
   \<and> map_sum id Args (ApiSign ''s'' twoValues) =
       Inr [(''a'', [''2'', ''1'']), (''api_sig'', [''3809f6746ce86180f98ffa2868d721fd''])]
   \<and> map_sum id Args (ApiSign ''s'' noValue) = Inl IndexOutOfRange"
  by code_simp

subsection \<open>The nonce\<close>

lemma letters_58: "length letters = 58 \<and> distinct letters"
  by (simp add: letters_def)

lemma nonce_set: "set (generateNonce rnd) \<subseteq> set letters"
  by (auto simp: generateNonce_def letters_58)

lemma letters_plain: "list_all (\<lambda>c. isAlnum c \<and> \<not> shouldEscape c) letters"
  by (simp add: letters_def isAlnum_def shouldEscape_def)

lemma nonce_plain: "QueryEscape (generateNonce rnd) = generateNonce rnd"
proof -
  have "\<forall>c \<in> set letters. \<not> shouldEscape c"
    using letters_plain by (simp add: list_all_iff)
  with nonce_set have "\<forall>c \<in> set (generateNonce rnd). \<not> shouldEscape c" by blast
  then show ?thesis by (simp add: QueryEscape_plain list_all_iff)
qed

text \<open>
  C6, as the code has it. Whatever the random source hands out, the nonce has 8
  characters, each one from the alphabet; the alphabet has 58 different characters, all
  of them letters or digits that need no URL escaping, and none of them is 0, l, O or I;
  escaping a nonce leaves it as it is.
\<close>

theorem nonce_alphabet:
  "length (generateNonce rnd) = 8
   \<and> set (generateNonce rnd) \<subseteq> set letters
   \<and> card (set letters) = 58
   \<and> list_all (\<lambda>c. isAlnum c \<and> \<not> shouldEscape c) letters
   \<and> set ''0lOI'' \<inter> set letters = {}
   \<and> QueryEscape (generateNonce rnd) = generateNonce rnd"
proof -
  have "card (set letters) = 58"
    using letters_58 by (simp add: distinct_card)
  moreover have "set ''0lOI'' \<inter> set letters = {}"
    by (simp add: letters_def)
  moreover have "length (generateNonce rnd) = 8"
    by (simp add: generateNonce_def)
  ultimately show ?thesis
    using nonce_set letters_plain nonce_plain by simp
qed

text \<open>
  C6 as stated fails in the size of the alphabet: it holds 58 characters, not 57. The
  last of them, \<open>Z\<close> at index 57, is what the draw 57 yields.
\<close>

theorem nonce_alphabet_counterexample:
  "card (set letters) \<noteq> 57 \<and> length letters = 58 \<and> distinct letters
   \<and> letters ! 57 = CHR ''Z'' \<and> generateNonce (\<lambda>i. 57) = ''ZZZZZZZZ''"
proof -
  have "card (set letters) = 58"
    using letters_58 by (simp add: distinct_card)
  moreover have "letters ! 57 = CHR ''Z''"
    by (simp add: letters_def)
  moreover have "generateNonce (\<lambda>i. 57) = ''ZZZZZZZZ''"
    by code_simp
  ultimately show ?thesis
    using letters_58 by simp
qed

subsection \<open>The token exchange\<close>

lemma update_fresh: "k \<notin> fst ` set al \<Longrightarrow> AList.update k v al = al @ [(k, v)]"
  by (induction al) auto

lemma SetDefaultArgs_Args: "Args (SetDefaultArgs e c) = defaultArgs e"
  by (simp add: SetDefaultArgs_def defaultArgs_def Values_Add_def Values_index_def Let_def)

lemma Sign_fresh:
  "''oauth_signature'' \<notin> fst ` set (Args c) \<Longrightarrow>
   Sign ts c =
     c\<lparr>Args := Args c @ [(''oauth_signature'',
        [EncodeToString
          (hmac_sha1 (QueryEscape (ApiSecret c) @ ''&'' @ QueryEscape ts)
             (HTTPVerb c @ ''&'' @ QueryEscape (EndpointUrl c) @ ''&''
                @ QueryEscape (canonicalQueryString (Args c))))])]\<rparr>"
  by (simp add: Sign_def Values_Del_def Values_Set_def getSignature_def getSigningBaseString_def
      Values_Encode_canonical Let_def update_fresh)

lemma requestToken_client:
  "fst (GetRequestToken e c) =
     c\<lparr>EndpointUrl := REQUEST_TOKEN_URL,
       Args := requestTokenArgs e c @ [(''oauth_signature'',
         [EncodeToString
           (hmac_sha1 (QueryEscape (ApiSecret c) @ ''&'' @ QueryEscape [])
              (HTTPVerb c @ ''&'' @ QueryEscape REQUEST_TOKEN_URL @ ''&''
                 @ QueryEscape (canonicalQueryString (requestTokenArgs e c))))])]\<rparr>"
proof -
  let ?c4 = "c\<lparr>EndpointUrl := REQUEST_TOKEN_URL, Args := requestTokenArgs e c\<rparr>"
  have "fst (GetRequestToken e c) = Sign [] ?c4"
    by (simp add: GetRequestToken_def Let_def SetDefaultArgs_def defaultArgs_def
        requestTokenArgs_def Values_Set_def Values_Add_def Values_index_def)
  moreover have "''oauth_signature'' \<notin> fst ` set (Args ?c4)"
    by (simp add: requestTokenArgs_def defaultArgs_def)
  ultimately show ?thesis
    by (simp add: Sign_fresh)
qed

lemma accessToken_client:
  "fst (GetAccessToken e c t v) =
     c\<lparr>EndpointUrl := ACCESS_TOKEN_URL,
       Args := accessTokenArgs e c t v @ [(''oauth_signature'',
         [EncodeToString
           (hmac_sha1 (QueryEscape (ApiSecret c) @ ''&'' @ QueryEscape (OauthTokenSecret t))
              (HTTPVerb c @ ''&'' @ QueryEscape ACCESS_TOKEN_URL @ ''&''
                 @ QueryEscape (canonicalQueryString (accessTokenArgs e c t v))))])]\<rparr>"
proof -
  let ?c5 = "c\<lparr>EndpointUrl := ACCESS_TOKEN_URL, Args := accessTokenArgs e c t v\<rparr>"
  have "fst (GetAccessToken e c t v) = Sign (OauthTokenSecret t) ?c5"
    by (simp add: GetAccessToken_def Let_def SetDefaultArgs_def defaultArgs_def
        accessTokenArgs_def Values_Set_def Values_Add_def Values_index_def)
  moreover have "''oauth_signature'' \<notin> fst ` set (Args ?c5)"
    by (simp add: accessTokenArgs_def defaultArgs_def)
  ultimately show ?thesis
    by (simp add: Sign_fresh)
qed

lemma requestToken_calls:
  "fst (snd (GetRequestToken e c)) = [HttpGet (GetUrl (fst (GetRequestToken e c)))]"
  by (simp add: GetRequestToken_def Let_def)

lemma accessToken_calls:
  "fst (snd (GetAccessToken e c t v)) = [HttpGet (GetUrl (fst (GetAccessToken e c t v)))]"
  by (simp add: GetAccessToken_def Let_def)

text \<open>
  What the two functions of the token exchange do to a client, whatever its state.
  \<open>GetRequestToken\<close> leaves the request-token URL as endpoint and the seeded default
  parameters followed by \<open>oauth_consumer_key\<close> (the app key), \<open>oauth_callback\<close> (\<open>oob\<close>)
  and the signature computed with the empty token secret; it sends one request, a GET of
  the client's URL. \<open>GetAccessToken\<close> leaves the access-token URL and the defaults
  followed by \<open>oauth_verifier\<close>, \<open>oauth_consumer_key\<close>, \<open>oauth_token\<close> (the request token)
  and the signature computed with the request token's secret, and sends one GET as well.
  The verb inside the signed base string is the client's \<open>HTTPVerb\<close>: neither function
  assigns it. \<open>NewFlickrClient\<close> sets it to GET.
\<close>

lemma token_exchange_requests:
  "fst (GetRequestToken e c) =
     c\<lparr>EndpointUrl := REQUEST_TOKEN_URL,
       Args := requestTokenArgs e c @ [(''oauth_signature'',
         [EncodeToString
           (hmac_sha1 (QueryEscape (ApiSecret c) @ ''&'' @ QueryEscape [])
              (HTTPVerb c @ ''&'' @ QueryEscape REQUEST_TOKEN_URL @ ''&''
                 @ QueryEscape (canonicalQueryString (requestTokenArgs e c))))])]\<rparr>
   \<and> fst (snd (GetRequestToken e c)) = [HttpGet (GetUrl (fst (GetRequestToken e c)))]
   \<and> fst (GetAccessToken e c t v) =
     c\<lparr>EndpointUrl := ACCESS_TOKEN_URL,
       Args := accessTokenArgs e c t v @ [(''oauth_signature'',
         [EncodeToString
           (hmac_sha1 (QueryEscape (ApiSecret c) @ ''&'' @ QueryEscape (OauthTokenSecret t))
              (HTTPVerb c @ ''&'' @ QueryEscape ACCESS_TOKEN_URL @ ''&''
                 @ QueryEscape (canonicalQueryString (accessTokenArgs e c t v))))])]\<rparr>
   \<and> fst (snd (GetAccessToken e c t v)) = [HttpGet (GetUrl (fst (GetAccessToken e c t v)))]
   \<and> Args (SetDefaultArgs e c) = defaultArgs e
   \<and> HTTPVerb (NewFlickrClient h k s) = ''GET''"
  using requestToken_client [of e c] accessToken_client [of e c t v]
    requestToken_calls [of e c] accessToken_calls [of e c t v]
  by (simp add: NewFlickrClient_def SetDefaultArgs_Args)

lemma Values_index_last:
  "k \<notin> fst ` set al \<Longrightarrow> Values_index (al @ [(k, vs)]) k = vs"
  by (induction al) (auto simp: Values_index_def)

lemma Values_Del_last:
  "k \<notin> fst ` set al \<Longrightarrow> Values_Del (al @ [(k, vs)]) k = al"
  by (induction al) (auto simp: Values_Del_def)

lemma requestToken_verb: "HTTPVerb (fst (GetRequestToken e c)) = HTTPVerb c"
  by (simp add: requestToken_client)

lemma accessToken_verb: "HTTPVerb (fst (GetAccessToken e c t v)) = HTTPVerb c"
  by (simp add: accessToken_client)

lemma requestToken_signature:
  "Values_index (Args (fst (GetRequestToken e c))) ''oauth_signature'' =
     [EncodeToString
        (hmac_sha1 (QueryEscape (ApiSecret c) @ ''&'' @ QueryEscape [])
           (HTTPVerb c @ ''&'' @ QueryEscape REQUEST_TOKEN_URL @ ''&''
              @ QueryEscape (canonicalQueryString (requestTokenArgs e c))))]"
proof -
  have "''oauth_signature'' \<notin> fst ` set (requestTokenArgs e c)"
    by (simp add: requestTokenArgs_def defaultArgs_def)
  then show ?thesis
    by (simp add: requestToken_client Values_index_last)
qed

lemma accessToken_signature:
  "Values_index (Args (fst (GetAccessToken e c t v))) ''oauth_signature'' =
     [EncodeToString
        (hmac_sha1 (QueryEscape (ApiSecret c) @ ''&'' @ QueryEscape (OauthTokenSecret t))
           (HTTPVerb c @ ''&'' @ QueryEscape ACCESS_TOKEN_URL @ ''&''
              @ QueryEscape (canonicalQueryString (accessTokenArgs e c t v))))]"
proof -
  have "''oauth_signature'' \<notin> fst ` set (accessTokenArgs e c t v)"
    by (simp add: accessTokenArgs_def defaultArgs_def)
  then show ?thesis
    by (simp add: accessToken_client Values_index_last)
qed

lemma requestToken_signed_base:
  "getSigningBaseString
     ((fst (GetRequestToken e c))
        \<lparr>Args := Values_Del (Args (fst (GetRequestToken e c))) ''oauth_signature''\<rparr>)
   = HTTPVerb c @ ''&'' @ QueryEscape REQUEST_TOKEN_URL @ ''&''
       @ QueryEscape (canonicalQueryString (requestTokenArgs e c))"
proof -
  have "''oauth_signature'' \<notin> fst ` set (requestTokenArgs e c)"
    by (simp add: requestTokenArgs_def defaultArgs_def)
  then have "Values_Del (Args (fst (GetRequestToken e c))) ''oauth_signature''
      = requestTokenArgs e c"
    by (simp add: requestToken_client Values_Del_last)
  then show ?thesis
    by (simp add: getSigningBaseString_def requestToken_client Values_Encode_canonical)
qed

lemma requestToken_base_GET:
  "HTTPVerb c = ''GET'' \<Longrightarrow>
   getSigningBaseString
     ((fst (GetRequestToken e c))
        \<lparr>Args := Values_Del (Args (fst (GetRequestToken e c))) ''oauth_signature''\<rparr>)
   = claimedRequestTokenBase e c"
  by (simp add: requestToken_signed_base claimedRequestTokenBase_def)

text \<open>
  C4. The request is always sent with \<open>HTTPClient.Get\<close>, but the verb that is signed is
  the one the client holds. On a client whose verb is POST, which is how every function
  of package \<open>groups\<close> leaves the client it was given, \<open>GetRequestToken\<close> keeps the verb POST,
  signs the base string that starts with \<open>POST&\<close> and sends a GET; signing with verb GET
  would sign the base string that starts with \<open>GET&\<close>, as happens on the client that
  \<open>NewFlickrClient\<close> returns. \<open>GetAccessToken\<close> signs \<open>POST&\<close> on the POST client as well.
  Endpoint, parameters and signing keys are as the general statement above has them:
  the empty token secret gives the key \<open>s&\<close>, the request token's secret the key
  \<open>s&S1\<close>.
\<close>

theorem token_exchange_signs_client_verb:
  "HTTPVerb postClient = ''POST''
   \<and> HTTPVerb (fst (GetRequestToken zeroEnv postClient)) = ''POST''
   \<and> fst (snd (GetRequestToken zeroEnv postClient))
       = [HttpGet (GetUrl (fst (GetRequestToken zeroEnv postClient)))]
   \<and> Values_index (Args (fst (GetRequestToken zeroEnv postClient))) ''oauth_signature''
       = [EncodeToString (hmac_sha1 ''s&''
           ''POST&https%3A%2F%2Fwww.flickr.com%2Fservices%2Foauth%2Frequest_token&oauth_callback%3Doob%26oauth_consumer_key%3Dk%26oauth_nonce%3D11111111%26oauth_signature_method%3DHMAC-SHA1%26oauth_timestamp%3D0%26oauth_version%3D1.0'')]
   \<and> claimedRequestTokenBase zeroEnv postClient
       = ''GET&https%3A%2F%2Fwww.flickr.com%2Fservices%2Foauth%2Frequest_token&oauth_callback%3Doob%26oauth_consumer_key%3Dk%26oauth_nonce%3D11111111%26oauth_signature_method%3DHMAC-SHA1%26oauth_timestamp%3D0%26oauth_version%3D1.0''
   \<and> getSigningBaseString
         ((fst (GetRequestToken zeroEnv postClient))
            \<lparr>Args := Values_Del (Args (fst (GetRequestToken zeroEnv postClient))) ''oauth_signature''\<rparr>)
       \<noteq> claimedRequestTokenBase zeroEnv postClient
   \<and> getSigningBaseString
         ((fst (GetRequestToken zeroEnv (NewFlickrClient Body ''k'' ''s'')))
            \<lparr>Args := Values_Del
               (Args (fst (GetRequestToken zeroEnv (NewFlickrClient Body ''k'' ''s''))))
               ''oauth_signature''\<rparr>)
       = claimedRequestTokenBase zeroEnv (NewFlickrClient Body ''k'' ''s'')
   \<and> HTTPVerb (fst (GetAccessToken zeroEnv postClient tokenT1 ''v'')) = ''POST''
   \<and> fst (snd (GetAccessToken zeroEnv postClient tokenT1 ''v''))
       = [HttpGet (GetUrl (fst (GetAccessToken zeroEnv postClient tokenT1 ''v'')))]
   \<and> Values_index (Args (fst (GetAccessToken zeroEnv postClient tokenT1 ''v''))) ''oauth_signature''
       = [EncodeToString (hmac_sha1 ''s&S1''
           ''POST&https%3A%2F%2Fwww.flickr.com%2Fservices%2Foauth%2Faccess_token&oauth_consumer_key%3Dk%26oauth_nonce%3D11111111%26oauth_signature_method%3DHMAC-SHA1%26oauth_timestamp%3D0%26oauth_token%3DT1%26oauth_verifier%3Dv%26oauth_version%3D1.0'')]"
proof -
  have verb: "HTTPVerb postClient = ''POST''"
    by (simp add: postClient_def)
  have key1: "QueryEscape (ApiSecret postClient) @ ''&'' @ QueryEscape [] = ''s&''"
    by code_simp
  have key2: "QueryEscape (ApiSecret postClient) @ ''&'' @ QueryEscape (OauthTokenSecret tokenT1)
      = ''s&S1''"
    by code_simp
  have base1: "HTTPVerb postClient @ ''&'' @ QueryEscape REQUEST_TOKEN_URL @ ''&''
      @ QueryEscape (canonicalQueryString (requestTokenArgs zeroEnv postClient))
    = ''POST&https%3A%2F%2Fwww.flickr.com%2Fservices%2Foauth%2Frequest_token&oauth_callback%3Doob%26oauth_consumer_key%3Dk%26oauth_nonce%3D11111111%26oauth_signature_method%3DHMAC-SHA1%26oauth_timestamp%3D0%26oauth_version%3D1.0''"
    by code_simp
  have base2: "HTTPVerb postClient @ ''&'' @ QueryEscape ACCESS_TOKEN_URL @ ''&''
      @ QueryEscape (canonicalQueryString (accessTokenArgs zeroEnv postClient tokenT1 ''v''))
    = ''POST&https%3A%2F%2Fwww.flickr.com%2Fservices%2Foauth%2Faccess_token&oauth_consumer_key%3Dk%26oauth_nonce%3D11111111%26oauth_signature_method%3DHMAC-SHA1%26oauth_timestamp%3D0%26oauth_token%3DT1%26oauth_verifier%3Dv%26oauth_version%3D1.0''"
    by code_simp
  have claimed: "claimedRequestTokenBase zeroEnv postClient
    = ''GET&https%3A%2F%2Fwww.flickr.com%2Fservices%2Foauth%2Frequest_token&oauth_callback%3Doob%26oauth_consumer_key%3Dk%26oauth_nonce%3D11111111%26oauth_signature_method%3DHMAC-SHA1%26oauth_timestamp%3D0%26oauth_version%3D1.0''"
    by code_simp
  note signed = requestToken_signed_base [of zeroEnv postClient]
  have differ: "getSigningBaseString
         ((fst (GetRequestToken zeroEnv postClient))
            \<lparr>Args := Values_Del (Args (fst (GetRequestToken zeroEnv postClient))) ''oauth_signature''\<rparr>)
       \<noteq> claimedRequestTokenBase zeroEnv postClient"
    unfolding signed base1 claimed by simp
  have verb1: "HTTPVerb (fst (GetRequestToken zeroEnv postClient)) = ''POST''"
    unfolding requestToken_verb by (rule verb)
  have verb2: "HTTPVerb (fst (GetAccessToken zeroEnv postClient tokenT1 ''v'')) = ''POST''"
    unfolding accessToken_verb by (rule verb)
  have sig1: "Values_index (Args (fst (GetRequestToken zeroEnv postClient))) ''oauth_signature''
       = [EncodeToString (hmac_sha1 ''s&''
           ''POST&https%3A%2F%2Fwww.flickr.com%2Fservices%2Foauth%2Frequest_token&oauth_callback%3Doob%26oauth_consumer_key%3Dk%26oauth_nonce%3D11111111%26oauth_signature_method%3DHMAC-SHA1%26oauth_timestamp%3D0%26oauth_version%3D1.0'')]"
    unfolding requestToken_signature key1 base1 by (rule refl)
  have sig2: "Values_index (Args (fst (GetAccessToken zeroEnv postClient tokenT1 ''v''))) ''oauth_signature''
       = [EncodeToString (hmac_sha1 ''s&S1''
           ''POST&https%3A%2F%2Fwww.flickr.com%2Fservices%2Foauth%2Faccess_token&oauth_consumer_key%3Dk%26oauth_nonce%3D11111111%26oauth_signature_method%3DHMAC-SHA1%26oauth_timestamp%3D0%26oauth_token%3DT1%26oauth_verifier%3Dv%26oauth_version%3D1.0'')]"
    unfolding accessToken_signature key2 base2 by (rule refl)
  have fresh: "getSigningBaseString
         ((fst (GetRequestToken zeroEnv (NewFlickrClient Body ''k'' ''s'')))
            \<lparr>Args := Values_Del
               (Args (fst (GetRequestToken zeroEnv (NewFlickrClient Body ''k'' ''s''))))
               ''oauth_signature''\<rparr>)
       = claimedRequestTokenBase zeroEnv (NewFlickrClient Body ''k'' ''s'')"
    by (rule requestToken_base_GET) (simp add: NewFlickrClient_def)
  show ?thesis
    by (intro conjI verb verb1 verb2 sig1 sig2 claimed differ fresh
        requestToken_calls [of zeroEnv postClient]
        accessToken_calls [of zeroEnv postClient tokenT1 "''v''"])
qed

subsection \<open>Parsing the token responses\<close>

lemma ParseRequestToken_problem:
  "ParseQuery (TrimSpace body) = (val, None) \<Longrightarrow> Values_Get val ''oauth_problem'' \<noteq> [] \<Longrightarrow>
   ParseRequestToken body =
     (Some \<lparr>OauthCallbackConfirmed = False, OauthToken = [], OauthTokenSecret = [],
            OAuthProblem = Values_Get val ''oauth_problem''\<rparr>, Some (NewError 20))"
  by (simp add: ParseRequestToken_def Let_def)

lemma ParseOAuthToken_problem:
  "ParseQuery (TrimSpace body) = (val, None) \<Longrightarrow> Values_Get val ''oauth_problem'' \<noteq> [] \<Longrightarrow>
   ParseOAuthToken body =
     (Some \<lparr>OAuthToken' = [], OAuthTokenSecret' = [], UserNsid = [], Username = [],
            Fullname = [], OAuthProblem' = Values_Get val ''oauth_problem''\<rparr>,
      Some (NewError 30))"
  by (simp add: ParseOAuthToken_def Let_def)

lemma ParseBool_true:
  "fst (ParseBool x) = (x \<in> set [''1'', ''t'', ''T'', ''true'', ''TRUE'', ''True''])"
  by (simp add: ParseBool_def)

lemma ParseRequestToken_ok:
  "ParseQuery (TrimSpace body) = (val, None) \<Longrightarrow> Values_Get val ''oauth_problem'' = [] \<Longrightarrow>
   ParseRequestToken body =
     (Some \<lparr>OauthCallbackConfirmed =
              (Values_Get val ''oauth_callback_confirmed''
                 \<in> set [''1'', ''t'', ''T'', ''true'', ''TRUE'', ''True'']),
            OauthToken = Values_Get val ''oauth_token'',
            OauthTokenSecret = Values_Get val ''oauth_token_secret'',
            OAuthProblem = []\<rparr>, None)"
  by (simp add: ParseRequestToken_def Let_def ParseBool_true del: set_simps)

text \<open>
  C5, as the code has it. For every response body that parses as form data without an
  error and whose \<open>oauth_problem\<close> has a non-empty (first) value, \<open>ParseRequestToken\<close> and
  \<open>ParseOAuthToken\<close> each return a token that holds nothing but this value, in its
  \<open>OAuthProblem\<close> field, together with an error: \<open>NewError(20)\<close> from the first,
  \<open>NewError(30)\<close> from the second, which are different.
\<close>

theorem oauth_problem_rejected:
  "ParseQuery (TrimSpace body) = (val, None) \<and> Values_Get val ''oauth_problem'' \<noteq> [] \<longrightarrow>
     ParseRequestToken body =
       (Some \<lparr>OauthCallbackConfirmed = False, OauthToken = [], OauthTokenSecret = [],
              OAuthProblem = Values_Get val ''oauth_problem''\<rparr>, Some (NewError 20))
     \<and> ParseOAuthToken body =
       (Some \<lparr>OAuthToken' = [], OAuthTokenSecret' = [], UserNsid = [], Username = [],
              Fullname = [], OAuthProblem' = Values_Get val ''oauth_problem''\<rparr>,
        Some (NewError 30))
     \<and> snd (ParseRequestToken body) \<noteq> None \<and> snd (ParseOAuthToken body) \<noteq> None
     \<and> snd (ParseRequestToken body) \<noteq> snd (ParseOAuthToken body)"
  by (simp add: ParseRequestToken_problem ParseOAuthToken_problem)

text \<open>The theorem at the specification's example, the body \<open>oauth_problem=permission_denied\<close>.\<close>

theorem oauth_problem_rejected_witness:
  "ParseQuery (TrimSpace ''oauth_problem=permission_denied'')
     = ([(''oauth_problem'', [''permission_denied''])], None)
   \<and> Values_Get [(''oauth_problem'', [''permission_denied''])] ''oauth_problem'' \<noteq> []
   \<and> ParseRequestToken ''oauth_problem=permission_denied'' =
       (Some \<lparr>OauthCallbackConfirmed = False, OauthToken = [], OauthTokenSecret = [],
              OAuthProblem = ''permission_denied''\<rparr>, Some (NewError 20))
   \<and> ParseOAuthToken ''oauth_problem=permission_denied'' =
       (Some \<lparr>OAuthToken' = [], OAuthTokenSecret' = [], UserNsid = [], Username = [],
              Fullname = [], OAuthProblem' = ''permission_denied''\<rparr>, Some (NewError 30))
   \<and> snd (ParseRequestToken ''oauth_problem=permission_denied'')
       \<noteq> snd (ParseOAuthToken ''oauth_problem=permission_denied'')"
proof -
  have parsed: "ParseQuery (TrimSpace ''oauth_problem=permission_denied'')
      = ([(''oauth_problem'', [''permission_denied''])], None)"
    by code_simp
  have present: "Values_Get [(''oauth_problem'', [''permission_denied''])] ''oauth_problem''
      = ''permission_denied''"
    by (simp add: Values_Get_def Values_index_def)
  show ?thesis
    using oauth_problem_rejected [of "''oauth_problem=permission_denied''"
        "[(''oauth_problem'', [''permission_denied''])]"] parsed present
    by simp
qed

text \<open>
  C5 as stated fails for a body that holds \<open>oauth_problem\<close> and does not parse: both
  functions return the parse error and no token.
\<close>

theorem oauth_problem_counterexample:
  "Values_Get (fst (ParseQuery (TrimSpace ''oauth_problem=permission_denied&x=%zz'')))
       ''oauth_problem'' = ''permission_denied''
   \<and> ParseRequestToken ''oauth_problem=permission_denied&x=%zz''
       = (None, Some (EscapeError ''%zz''))
   \<and> ParseOAuthToken ''oauth_problem=permission_denied&x=%zz''
       = (None, Some (EscapeError ''%zz''))"
  by code_simp

text \<open>
  C9, as the code has it. For every response body that parses as form data without an
  error and whose \<open>oauth_problem\<close> is missing or empty, \<open>ParseRequestToken\<close> returns no
  error and a token with the body's \<open>oauth_token\<close> and \<open>oauth_token_secret\<close>;
  \<open>OauthCallbackConfirmed\<close> is \<open>ParseBool\<close> of \<open>oauth_callback_confirmed\<close> with its error
  dropped: true for 1, t, T, true, TRUE and True, false for everything else, the missing
  field included.
\<close>

theorem request_token_parsed:
  "(ParseQuery (TrimSpace body) = (val, None) \<and> Values_Get val ''oauth_problem'' = [] \<longrightarrow>
     ParseRequestToken body =
       (Some \<lparr>OauthCallbackConfirmed = fst (ParseBool (Values_Get val ''oauth_callback_confirmed'')),
              OauthToken = Values_Get val ''oauth_token'',
              OauthTokenSecret = Values_Get val ''oauth_token_secret'',
              OAuthProblem = []\<rparr>, None))
   \<and> fst (ParseBool x) = (x \<in> set [''1'', ''t'', ''T'', ''true'', ''TRUE'', ''True''])
   \<and> Values_Get [] ''oauth_callback_confirmed'' = []
   \<and> ParseBool [] = (False, Some (SyntaxError []))"
  by (simp add: ParseRequestToken_ok ParseBool_true del: set_simps)
    (simp add: ParseBool_def Values_Get_def Values_index_def)

text \<open>
  The theorem at the specification's example, the body
  \<open>oauth_callback_confirmed=true&oauth_token=T1&oauth_token_secret=S1\<close>.
\<close>

theorem request_token_parsed_witness:
  "ParseQuery (TrimSpace ''oauth_callback_confirmed=true&oauth_token=T1&oauth_token_secret=S1'')
     = ([(''oauth_callback_confirmed'', [''true'']), (''oauth_token'', [''T1'']),
         (''oauth_token_secret'', [''S1''])], None)
   \<and> Values_Get [(''oauth_callback_confirmed'', [''true'']), (''oauth_token'', [''T1'']),
         (''oauth_token_secret'', [''S1''])] ''oauth_problem'' = []
   \<and> ParseRequestToken ''oauth_callback_confirmed=true&oauth_token=T1&oauth_token_secret=S1''
       = (Some \<lparr>OauthCallbackConfirmed = True, OauthToken = ''T1'', OauthTokenSecret = ''S1'',
                OAuthProblem = []\<rparr>, None)"
proof -
  have parsed:
    "ParseQuery (TrimSpace ''oauth_callback_confirmed=true&oauth_token=T1&oauth_token_secret=S1'')
     = ([(''oauth_callback_confirmed'', [''true'']), (''oauth_token'', [''T1'']),
         (''oauth_token_secret'', [''S1''])], None)"
    by code_simp
  have absent:
    "Values_Get [(''oauth_callback_confirmed'', [''true'']), (''oauth_token'', [''T1'']),
         (''oauth_token_secret'', [''S1''])] ''oauth_problem'' = []"
    by (simp add: Values_Get_def Values_index_def)
  show ?thesis
    using request_token_parsed
      [of "''oauth_callback_confirmed=true&oauth_token=T1&oauth_token_secret=S1''"
        "[(''oauth_callback_confirmed'', [''true'']), (''oauth_token'', [''T1'']),
         (''oauth_token_secret'', [''S1''])]" "''true''"] parsed absent
    by (simp add: Values_Get_def Values_index_def)
qed

text \<open>
  C9 as stated fails for a body without \<open>oauth_problem\<close> that does not parse: the parse
  error is returned, and no token.
\<close>

theorem request_token_counterexample:
  "Values_Get (fst (ParseQuery (TrimSpace ''oauth_token=T1&oauth_token_secret=%zz'')))
       ''oauth_problem'' = []
   \<and> ParseRequestToken ''oauth_token=T1&oauth_token_secret=%zz''
       = (None, Some (EscapeError ''%zz''))"
  by code_simp

subsection \<open>The authorization URL\<close>

lemma of_char_lt: "(of_char c :: nat) < 256"
  by simp

lemma upperhex_digits:
  "list_all (\<lambda>i. ishex (upperhex ! i) \<and> unhex (upperhex ! i) = i
      \<and> upperhex ! i \<notin> set ''&;='') [0..<16]"
  by code_simp

lemma upperhex_digit:
  "i < 16 \<Longrightarrow> ishex (upperhex ! i) \<and> unhex (upperhex ! i) = i
     \<and> upperhex ! i \<notin> set ''&;=''"
  using upperhex_digits by (simp add: list_all_iff)

lemma plain_not_special: "\<not> shouldEscape c \<Longrightarrow> c \<noteq> CHR ''%'' \<and> c \<noteq> CHR ''+'' \<and> c \<notin> set ''&;=''"
  by (auto simp: shouldEscape_def split: if_splits)

lemma QueryEscape_roundtrip: "QueryUnescape (QueryEscape s) = Inr s"
proof (induction s)
  case Nil
  then show ?case by simp
next
  case (Cons c s)
  have hi: "of_char c div 16 < (16::nat)" and lo: "of_char c mod 16 < (16::nat)"
    using of_char_lt [of c] by (arith, arith)
  have restored: "char_of ((of_char c :: nat) div 16 * 16 + of_char c mod 16) = c"
    by simp
  show ?case
  proof (cases "shouldEscape c")
    case True
    then show ?thesis
      using Cons upperhex_digit [OF hi] upperhex_digit [OF lo] restored
      by (auto simp del: div_mult_mod_eq)
  next
    case False
    then show ?thesis
      using Cons plain_not_special [OF False] by simp
  qed
qed

lemma QueryEscape_no_separator: "set (QueryEscape s) \<inter> set ''&;='' = {}"
proof (induction s)
  case Nil
  then show ?case by simp
next
  case (Cons c s)
  have hi: "of_char c div 16 < (16::nat)" and lo: "of_char c mod 16 < (16::nat)"
    using of_char_lt [of c] by (arith, arith)
  show ?case
    using Cons upperhex_digit [OF hi] upperhex_digit [OF lo] plain_not_special [of c]
    by auto
qed

lemma cut_at: "sep \<notin> set xs \<Longrightarrow> cut sep (xs @ sep # ys) = (xs, ys)"
  by (induction xs) (auto simp: cut_def)

lemma authorize_query:
  "Values_Encode [(''oauth_token'', [tok]), (''perms'', [''delete''])]
     = ''oauth_token='' @ QueryEscape tok @ ''&perms=delete''"
  by (simp add: Values_Encode_def Values_index_def shouldEscape_def)

lemma parse_authorize_query:
  "ParseQuery (''oauth_token='' @ QueryEscape tok @ ''&perms=delete'')
     = ([(''oauth_token'', [tok]), (''perms'', [''delete''])], None)"
proof -
  let ?E = "QueryEscape tok"
  have nosep: "CHR ''&'' \<notin> set ?E" "CHR '';'' \<notin> set ?E" "CHR ''='' \<notin> set ?E"
    using QueryEscape_no_separator [of tok] by auto
  have c1: "cut (CHR ''&'') (''oauth_token='' @ ?E @ ''&perms=delete'')
      = (''oauth_token='' @ ?E, ''perms=delete'')"
    using cut_at [of "CHR ''&''" "''oauth_token='' @ ?E" "''perms=delete''"] nosep by simp
  have c2: "cut (CHR ''='') (''oauth_token='' @ ?E) = (''oauth_token'', ?E)"
    using cut_at [of "CHR ''=''" "''oauth_token''" ?E] by simp
  have key: "QueryUnescape ''oauth_token'' = Inr ''oauth_token''"
    by simp
  have rest: "parseQuery [(''oauth_token'', [tok])] None ''perms=delete''
      = ([(''oauth_token'', [tok]), (''perms'', [''delete''])], None)"
    by (simp add: parseQuery.simps cut_def Values_Add_def Values_index_def)
  have "parseQuery [] None (''oauth_token='' @ ?E @ ''&perms=delete'')
      = parseQuery [(''oauth_token'', [tok])] None ''perms=delete''"
    by (subst parseQuery.simps)
      (simp only: c1 c2 fst_conv snd_conv Let_def key QueryEscape_roundtrip nosep,
        simp add: Values_Add_def Values_index_def nosep)
  then show ?thesis
    by (simp add: ParseQuery_def rest)
qed

text \<open>
  C8. \<open>GetAuthorizeUrl\<close> sends no request. It leaves the client with the authorization
  URL as endpoint and with exactly two parameters, \<open>oauth_token\<close> (the request token) and
  \<open>perms\<close> (\<open>delete\<close>), and returns no error and the URL made of the endpoint, a question
  mark, and the query \<open>oauth_token=\<close>, the escaped token, \<open>&perms=delete\<close>. Parsing this
  query gives back the token as the value of \<open>oauth_token\<close>. For the token \<open>T1\<close> the URL
  ends in \<open>?oauth_token=T1&perms=delete\<close>.
\<close>

theorem authorize_url:
  "GetAuthorizeUrl c t =
     (c\<lparr>EndpointUrl := AUTHORIZE_URL,
        Args := [(''oauth_token'', [OauthToken t]), (''perms'', [''delete''])]\<rparr>,
      [],
      (AUTHORIZE_URL @ ''?oauth_token='' @ QueryEscape (OauthToken t) @ ''&perms=delete'', None))
   \<and> ParseQuery (''oauth_token='' @ QueryEscape (OauthToken t) @ ''&perms=delete'')
       = ([(''oauth_token'', [OauthToken t]), (''perms'', [''delete''])], None)
   \<and> snd (snd (GetAuthorizeUrl c (t\<lparr>OauthToken := ''T1''\<rparr>)))
       = (''https://www.flickr.com/services/oauth/authorize?oauth_token=T1&perms=delete'', None)"
proof -
  have url: "GetAuthorizeUrl c t =
     (c\<lparr>EndpointUrl := AUTHORIZE_URL,
        Args := [(''oauth_token'', [OauthToken t]), (''perms'', [''delete''])]\<rparr>,
      [],
      (AUTHORIZE_URL @ ''?oauth_token='' @ QueryEscape (OauthToken t) @ ''&perms=delete'', None))"
    for t
    by (simp add: GetAuthorizeUrl_def Let_def GetUrl_def Values_Set_def authorize_query)
  have "snd (snd (GetAuthorizeUrl c (t\<lparr>OauthToken := ''T1''\<rparr>)))
       = (''https://www.flickr.com/services/oauth/authorize?oauth_token=T1&perms=delete'', None)"
    by (simp add: url AUTHORIZE_URL_def shouldEscape_def)
  with url [of t] parse_authorize_query [of "OauthToken t"] show ?thesis
    by blast
qed

subsection \<open>Decimal integers and the photo quota\<close>

lemma isDigit_nat: "isDigit c = (48 \<le> (of_char c :: nat) \<and> (of_char c :: nat) \<le> 57)"
  by (simp add: isDigit_def less_eq_char_def)

lemma fast_sub:
  "n < 256 \<Longrightarrow> byteSub n 48 = (if 48 \<le> n then n - 48 else n + 208)"
  by (simp add: byteSub_def mod_if)

lemma fast_digit: "9 < byteSub (of_char ch) 48 \<longleftrightarrow> \<not> isDigit ch"
proof -
  have "(of_char ch :: nat) < 256" by simp
  then show ?thesis
    by (simp only: fast_sub isDigit_nat) auto
qed

lemma fast_digit_value: "isDigit ch \<Longrightarrow> int (byteSub (of_char ch) 48) = of_char ch - 48"
proof -
  assume d: "isDigit ch"
  have "(of_char ch :: nat) < 256" by simp
  then have "byteSub (of_char ch) 48 = (of_char ch :: nat) - 48"
    using d by (simp only: fast_sub isDigit_nat) simp
  moreover have "48 \<le> (of_char ch :: nat)"
    using d by (simp add: isDigit_nat)
  ultimately show ?thesis
    by (simp add: of_nat_diff of_nat_of_char)
qed

lemma digit_range: "isDigit c \<Longrightarrow> 0 \<le> (of_char c :: int) - 48 \<and> (of_char c :: int) - 48 \<le> 9"
proof -
  assume "isDigit c"
  then have "48 \<le> (of_char c :: nat)" "(of_char c :: nat) \<le> 57"
    by (simp_all add: isDigit_nat)
  then have "48 \<le> int (of_char c)" "int (of_char c) \<le> 57" by simp_all
  then show ?thesis by (simp add: of_nat_of_char)
qed

lemma atoiFast_Cons:
  "atoiFast s0 n (ch # s) =
     (if isDigit ch then atoiFast s0 (digitStep n ch) s else (0, Some (SyntaxError s0)))"
  by (simp add: fast_digit fast_digit_value Let_def digitStep_def)

lemma parseUintLoop_Cons:
  "parseUintLoop s0 n (c # s) =
     (if isDigit c then
        (if n \<ge> maxUint64 div 10 + 1 \<or> digitStep n c > maxUint64
         then (maxUint64, Some (RangeError s0))
         else parseUintLoop s0 (digitStep n c) s)
      else (0, Some (SyntaxError s0)))"
  by (simp add: isDigit_def digitStep_def Let_def)

lemma atoiFast_eq:
  "atoiFast s0 n ds =
     (if list_all isDigit ds
      then (if hd s0 = CHR ''-'' then - foldl digitStep n ds else foldl digitStep n ds, None)
      else (0, Some (SyntaxError s0)))"
  by (induction ds arbitrary: n) (simp_all add: atoiFast_Cons del: atoiFast.simps(2))

lemma digitStep_mono: "isDigit c \<Longrightarrow> 0 \<le> n \<Longrightarrow> n \<le> digitStep n c"
  using digit_range [of c] by (simp add: digitStep_def)

lemma digits_mono: "list_all isDigit ds \<Longrightarrow> 0 \<le> n \<Longrightarrow> n \<le> foldl digitStep n ds"
proof (induction ds arbitrary: n)
  case Nil
  then show ?case by simp
next
  case (Cons c ds)
  then have "n \<le> digitStep n c" by (simp add: digitStep_mono)
  moreover from Cons this have "digitStep n c \<le> foldl digitStep (digitStep n c) ds" by simp
  ultimately show ?case by simp
qed

lemma digits_bound:
  "list_all isDigit ds \<Longrightarrow> 0 \<le> n \<Longrightarrow> foldl digitStep n ds < (n + 1) * 10 ^ length ds"
proof (induction ds arbitrary: n)
  case Nil
  then show ?case by simp
next
  case (Cons c ds)
  then have d: "0 \<le> (of_char c :: int) - 48" "(of_char c :: int) - 48 \<le> 9"
    using digit_range [of c] by simp_all
  with Cons have "0 \<le> digitStep n c" by (simp add: digitStep_def)
  with Cons have "foldl digitStep (digitStep n c) ds < (digitStep n c + 1) * 10 ^ length ds"
    by simp
  also have "\<dots> \<le> ((n + 1) * 10) * 10 ^ length ds"
    using d by (intro mult_right_mono) (simp_all add: digitStep_def)
  finally show ?case by (simp add: algebra_simps)
qed

lemma short_digits_fit:
  assumes "list_all isDigit ds" "length ds \<le> 18"
  shows "0 \<le> digitsValue ds \<and> digitsValue ds < 1000000000000000000"
proof -
  have "digitsValue ds < 10 ^ length ds"
    using digits_bound [OF assms(1), of 0] by (simp add: digitsValue_def)
  also have "(10::int) ^ length ds \<le> 10 ^ 18"
    using assms(2) by (intro power_increasing) simp_all
  finally have "digitsValue ds < 1000000000000000000" by simp
  moreover have "0 \<le> digitsValue ds"
    using digits_mono [OF assms(1), of 0] by (simp add: digitsValue_def)
  ultimately show ?thesis by simp
qed

lemma parseUintLoop_ok:
  "list_all isDigit ds \<Longrightarrow> 0 \<le> n \<Longrightarrow> foldl digitStep n ds \<le> maxUint64 \<Longrightarrow>
   parseUintLoop s0 n ds = (foldl digitStep n ds, None)"
proof (induction ds arbitrary: n)
  case Nil
  then show ?case by simp
next
  case (Cons c ds)
  then have dig: "isDigit c" and rest: "list_all isDigit ds" by simp_all
  have d: "0 \<le> (of_char c :: int) - 48"
    using digit_range [OF dig] by simp
  have n1: "0 \<le> digitStep n c"
    using d Cons.prems(2) by (simp add: digitStep_def)
  have le: "digitStep n c \<le> maxUint64"
    using digits_mono [OF rest n1] Cons.prems(3) by simp
  then have small: "\<not> n \<ge> maxUint64 div 10 + 1"
    using d by (simp add: digitStep_def maxUint64_def)
  have "parseUintLoop s0 (digitStep n c) ds = (foldl digitStep (digitStep n c) ds, None)"
    using Cons.IH [OF rest n1] Cons.prems(3) by simp
  then show ?case
    using dig small le by (simp add: parseUintLoop_Cons del: parseUintLoop.simps(2))
qed

lemma parseUintLoop_fail:
  "0 \<le> n \<Longrightarrow> n \<le> maxUint64 \<Longrightarrow>
   \<not> (list_all isDigit ds \<and> foldl digitStep n ds \<le> maxUint64) \<Longrightarrow>
   snd (parseUintLoop s0 n ds) \<noteq> None"
proof (induction ds arbitrary: n)
  case Nil
  then show ?case by simp
next
  case (Cons c ds)
  show ?case
  proof (cases "isDigit c")
    case False
    then show ?thesis by (simp add: parseUintLoop_Cons del: parseUintLoop.simps(2))
  next
    case True
    have d: "0 \<le> (of_char c :: int) - 48"
      using digit_range [OF True] by simp
    have n1: "0 \<le> digitStep n c"
      using d Cons.prems(1) by (simp add: digitStep_def)
    show ?thesis
    proof (cases "n \<ge> maxUint64 div 10 + 1 \<or> digitStep n c > maxUint64")
      case True
      then show ?thesis
        using \<open>isDigit c\<close> by (auto simp: parseUintLoop_Cons simp del: parseUintLoop.simps(2))
    next
      case False
      then have "snd (parseUintLoop s0 (digitStep n c) ds) \<noteq> None"
        using Cons.IH [OF n1] Cons.prems(3) \<open>isDigit c\<close> by simp
      then show ?thesis
        using False \<open>isDigit c\<close> by (simp add: parseUintLoop_Cons del: parseUintLoop.simps(2))
    qed
  qed
qed

lemma ParseUint_ok:
  "ds \<noteq> [] \<Longrightarrow> list_all isDigit ds \<Longrightarrow> digitsValue ds \<le> maxUint64 \<Longrightarrow>
   ParseUint ds = (digitsValue ds, None)"
  by (simp add: ParseUint_def digitsValue_def parseUintLoop_ok)

lemma ParseUint_fail:
  "\<not> (ds \<noteq> [] \<and> list_all isDigit ds \<and> digitsValue ds \<le> maxUint64) \<Longrightarrow>
   snd (ParseUint ds) \<noteq> None"
  using parseUintLoop_fail [of 0 ds ds]
  by (auto simp: ParseUint_def digitsValue_def maxUint64_def)

lemma ParseUint_cases:
  "(ds \<noteq> [] \<and> list_all isDigit ds \<and> digitsValue ds \<le> maxUint64
      \<and> ParseUint ds = (digitsValue ds, None))
   \<or> snd (ParseUint ds) \<noteq> None"
  using ParseUint_ok [of ds] ParseUint_fail [of ds] by blast

lemma ParseInt_error:
  assumes "s \<noteq> []"
    and "snd (ParseUint (if hd s = CHR ''+'' \<or> hd s = CHR ''-'' then tl s else s)) \<noteq> None"
  shows "snd (ParseInt s) \<noteq> None"
proof -
  let ?s1 = "if hd s = CHR ''+'' \<or> hd s = CHR ''-'' then tl s else s"
  from assms(2) obtain un e where r: "ParseUint ?s1 = (un, Some e)"
    by (cases "ParseUint ?s1") auto
  have "ParseInt s =
     (case ParseUint ?s1 of
        (un, Some (RangeError x)) \<Rightarrow>
           (if hd s = CHR ''-'' then (- 9223372036854775808, Some (RangeError s))
            else (9223372036854775808 - 1, Some (RangeError s)))
      | (un, Some e) \<Rightarrow> (0, Some (SyntaxError s))
      | (un, None) \<Rightarrow>
           if \<not> hd s = CHR ''-'' \<and> un \<ge> 9223372036854775808
             then (9223372036854775808 - 1, Some (RangeError s))
           else if hd s = CHR ''-'' \<and> un > 9223372036854775808
             then (- 9223372036854775808, Some (RangeError s))
           else (if hd s = CHR ''-'' then - un else un, None))"
    using assms(1) unfolding ParseInt_def Let_def by (simp only: if_False)
  then show ?thesis
    unfolding r by (cases e) simp_all
qed

lemma ParseInt_value:
  "s \<noteq> [] \<Longrightarrow>
   ParseUint (if hd s = CHR ''+'' \<or> hd s = CHR ''-'' then tl s else s) = (un, None) \<Longrightarrow>
   ParseInt s =
     (if hd s \<noteq> CHR ''-'' \<and> un \<ge> 9223372036854775808
        then (9223372036854775807, Some (RangeError s))
      else if hd s = CHR ''-'' \<and> un > 9223372036854775808
        then (- 9223372036854775808, Some (RangeError s))
      else (if hd s = CHR ''-'' then - un else un, None))"
  by (simp add: ParseInt_def Let_def)

lemma digitsValue_nonneg: "list_all isDigit ds \<Longrightarrow> 0 \<le> digitsValue ds"
  using digits_mono [of ds 0] by (simp add: digitsValue_def)

lemma ParseInt_ok:
  assumes "isDecimal s" "fitsInt64 (decimalValue s)"
  shows "ParseInt s = (decimalValue s, None)"
proof -
  from assms(1) obtain c ds where s: "s = c # ds"
    by (cases s) (simp_all add: isDecimal_def)
  let ?s1 = "if hd s = CHR ''+'' \<or> hd s = CHR ''-'' then tl s else s"
  have digits: "?s1 \<noteq> [] \<and> list_all isDigit ?s1"
    using assms(1) s by (auto simp: isDecimal_def split: if_splits)
  have val: "decimalValue s = (if hd s = CHR ''-'' then - digitsValue ?s1 else digitsValue ?s1)"
    using s by (simp add: decimalValue_def)
  have "digitsValue ?s1 \<le> maxUint64"
    using assms(2) val by (auto simp: fitsInt64_def maxUint64_def split: if_splits)
  then have "ParseUint ?s1 = (digitsValue ?s1, None)"
    using digits ParseUint_ok by blast
  then have "ParseInt s =
     (if hd s \<noteq> CHR ''-'' \<and> digitsValue ?s1 \<ge> 9223372036854775808
        then (9223372036854775807, Some (RangeError s))
      else if hd s = CHR ''-'' \<and> digitsValue ?s1 > 9223372036854775808
        then (- 9223372036854775808, Some (RangeError s))
      else (if hd s = CHR ''-'' then - digitsValue ?s1 else digitsValue ?s1, None))"
    using s by (intro ParseInt_value) simp_all
  then show ?thesis
    using assms(2) val by (auto simp: fitsInt64_def split: if_splits)
qed

lemma ParseInt_fail:
  assumes "\<not> (isDecimal s \<and> fitsInt64 (decimalValue s))"
  shows "snd (ParseInt s) \<noteq> None"
proof (cases s)
  case Nil
  then show ?thesis by (simp add: ParseInt_def)
next
  case (Cons c ds)
  let ?s1 = "if hd s = CHR ''+'' \<or> hd s = CHR ''-'' then tl s else s"
  from ParseUint_cases [of ?s1] show ?thesis
  proof
    assume "snd (ParseUint ?s1) \<noteq> None"
    then show ?thesis using Cons by (intro ParseInt_error) simp_all
  next
    assume ok: "?s1 \<noteq> [] \<and> list_all isDigit ?s1 \<and> digitsValue ?s1 \<le> maxUint64
      \<and> ParseUint ?s1 = (digitsValue ?s1, None)"
    then have dec: "isDecimal s"
      using Cons by (auto simp: isDecimal_def split: if_splits)
    have val: "decimalValue s = (if hd s = CHR ''-'' then - digitsValue ?s1 else digitsValue ?s1)"
      using Cons by (simp add: decimalValue_def)
    have nonneg: "0 \<le> digitsValue ?s1"
      using ok digitsValue_nonneg by blast
    from ok have "ParseInt s =
     (if hd s \<noteq> CHR ''-'' \<and> digitsValue ?s1 \<ge> 9223372036854775808
        then (9223372036854775807, Some (RangeError s))
      else if hd s = CHR ''-'' \<and> digitsValue ?s1 > 9223372036854775808
        then (- 9223372036854775808, Some (RangeError s))
      else (if hd s = CHR ''-'' then - digitsValue ?s1 else digitsValue ?s1, None))"
      using Cons by (intro ParseInt_value) simp_all
    then show ?thesis
      using assms dec val nonneg by (auto simp: fitsInt64_def split: if_splits)
  qed
qed

lemma short_decimal_fits:
  assumes "isDecimal s" "length s < 19"
  shows "fitsInt64 (decimalValue s)"
proof -
  from assms(1) obtain c ds where s: "s = c # ds"
    by (cases s) (simp_all add: isDecimal_def)
  let ?s1 = "if c = CHR ''+'' \<or> c = CHR ''-'' then ds else s"
  have "list_all isDigit ?s1" "length ?s1 \<le> 18"
    using assms s by (auto simp: isDecimal_def split: if_splits)
  then have "0 \<le> digitsValue ?s1 \<and> digitsValue ?s1 < 1000000000000000000"
    by (rule short_digits_fit)
  moreover have "decimalValue s = (if c = CHR ''-'' then - digitsValue ?s1 else digitsValue ?s1)"
    using s by (simp add: decimalValue_def)
  ultimately show ?thesis
    by (auto simp: fitsInt64_def split: if_splits)
qed

lemma Atoi_fast:
  assumes "0 < length s" "length s < 19"
  shows "Atoi s = (if isDecimal s then (decimalValue s, None) else (0, Some (SyntaxError s)))"
proof -
  from assms(1) obtain c ds where s: "s = c # ds"
    by (cases s) simp_all
  show ?thesis
  proof (cases "c = CHR ''-'' \<or> c = CHR ''+''")
    case True
    then show ?thesis
      using assms s
      by (cases ds)
        (auto simp: Atoi_def isDecimal_def decimalValue_def digitsValue_def atoiFast_eq)
  next
    case False
    then show ?thesis
      using assms s
      by (auto simp: Atoi_def isDecimal_def decimalValue_def digitsValue_def atoiFast_eq)
  qed
qed

lemma Atoi_ok:
  assumes "isDecimal s" "fitsInt64 (decimalValue s)"
  shows "Atoi s = (decimalValue s, None)"
proof (cases "0 < length s \<and> length s < 19")
  case True
  then show ?thesis using assms(1) by (simp add: Atoi_fast)
next
  case False
  then have "Atoi s = ParseInt s" by (simp only: Atoi_def if_False)
  then show ?thesis using assms by (simp add: ParseInt_ok)
qed

lemma Atoi_fail:
  assumes "\<not> (isDecimal s \<and> fitsInt64 (decimalValue s))"
  shows "snd (Atoi s) \<noteq> None"
proof (cases "0 < length s \<and> length s < 19")
  case True
  then have "\<not> isDecimal s"
    using assms short_decimal_fits by blast
  then show ?thesis using True by (simp add: Atoi_fast)
next
  case False
  then have "Atoi s = ParseInt s" by (simp only: Atoi_def if_False)
  then show ?thesis using assms by (simp add: ParseInt_fail)
qed

lemma CanAddPhotos_iff:
  "CanAddPhotos g =
     (isDecimal (Remaining (Throttle (Group g)))
      \<and> 0 < decimalValue (Remaining (Throttle (Group g)))
      \<and> decimalValue (Remaining (Throttle (Group g))) \<le> 9223372036854775807)"
proof (cases "isDecimal (Remaining (Throttle (Group g)))
    \<and> fitsInt64 (decimalValue (Remaining (Throttle (Group g))))")
  case True
  then show ?thesis
    by (auto simp: CanAddPhotos_def Atoi_ok fitsInt64_def)
next
  case False
  then obtain e where "snd (Atoi (Remaining (Throttle (Group g)))) = Some e"
    using Atoi_fail by blast
  then have "\<not> CanAddPhotos g"
    by (cases "Atoi (Remaining (Throttle (Group g)))") (simp add: CanAddPhotos_def)
  then show ?thesis
    using False by (auto simp: fitsInt64_def)
qed

text \<open>
  C10. \<open>CanAddPhotos\<close> is true exactly when the \<open>remaining\<close> attribute is a decimal
  integer (an optional sign, then digits only) whose value is greater than zero and fits
  the 64-bit \<open>int\<close>, which is when \<open>Atoi\<close> parses it to a value above zero. \<open>Atoi\<close>
  returns no error exactly for the decimal integers that fit, and then their value. For the
  empty attribute, for text that is no integer and for integers that do not fit the result
  is false, never a failure: \<open>CanAddPhotos\<close> is a total function to the booleans.
\<close>

theorem CanAddPhotos_positive_integer:
  "CanAddPhotos g =
     (isDecimal (Remaining (Throttle (Group g)))
      \<and> 0 < decimalValue (Remaining (Throttle (Group g)))
      \<and> decimalValue (Remaining (Throttle (Group g))) \<le> 9223372036854775807)
   \<and> (Atoi s = (decimalValue s, None)) = (isDecimal s \<and> fitsInt64 (decimalValue s))
   \<and> (snd (Atoi s) = None) = (isDecimal s \<and> fitsInt64 (decimalValue s))
   \<and> CanAddPhotos (groupWith ''3'') \<and> CanAddPhotos (groupWith ''+7'')
   \<and> CanAddPhotos (groupWith ''9223372036854775807'')
   \<and> \<not> CanAddPhotos (groupWith []) \<and> \<not> CanAddPhotos (groupWith ''0'')
   \<and> \<not> CanAddPhotos (groupWith ''-3'') \<and> \<not> CanAddPhotos (groupWith ''abc'')
   \<and> \<not> CanAddPhotos (groupWith '' 3'') \<and> \<not> CanAddPhotos (groupWith ''3.0'')
   \<and> \<not> CanAddPhotos (groupWith ''9223372036854775808'')"
proof -
  have parses: "(snd (Atoi s) = None) = (isDecimal s \<and> fitsInt64 (decimalValue s))"
  proof
    assume "snd (Atoi s) = None"
    then show "isDecimal s \<and> fitsInt64 (decimalValue s)"
      using Atoi_fail [of s] by blast
  next
    assume "isDecimal s \<and> fitsInt64 (decimalValue s)"
    then show "snd (Atoi s) = None"
      by (simp add: Atoi_ok)
  qed
  have "(Atoi s = (decimalValue s, None)) = (isDecimal s \<and> fitsInt64 (decimalValue s))"
  proof
    assume "Atoi s = (decimalValue s, None)"
    then have "snd (Atoi s) = None" by simp
    then show "isDecimal s \<and> fitsInt64 (decimalValue s)"
      using parses by simp
  next
    assume "isDecimal s \<and> fitsInt64 (decimalValue s)"
    then show "Atoi s = (decimalValue s, None)"
      by (simp add: Atoi_ok)
  qed
  moreover have "CanAddPhotos (groupWith ''3'') \<and> CanAddPhotos (groupWith ''+7'')
   \<and> CanAddPhotos (groupWith ''9223372036854775807'')
   \<and> \<not> CanAddPhotos (groupWith []) \<and> \<not> CanAddPhotos (groupWith ''0'')
   \<and> \<not> CanAddPhotos (groupWith ''-3'') \<and> \<not> CanAddPhotos (groupWith ''abc'')
   \<and> \<not> CanAddPhotos (groupWith '' 3'') \<and> \<not> CanAddPhotos (groupWith ''3.0'')
   \<and> \<not> CanAddPhotos (groupWith ''9223372036854775808'')"
    by code_simp
  ultimately show ?thesis
    using parses CanAddPhotos_iff [of g] by blast
qed

subsection \<open>The response envelope\<close>

text \<open>
  C7. \<open>HasErrors\<close> holds exactly when the status is the string \<open>fail\<close>; \<open>ErrorCode\<close> and
  \<open>ErrorMsg\<close> return the code and the message of the nested error. For the status
  \<open>fail\<close> with code 1 and message \<open>not found\<close> they return 1 and \<open>not found\<close>; the
  statuses \<open>ok\<close>, \<open>FAIL\<close>, \<open>failed\<close> and the empty one are no error.
\<close>

theorem FlickrResponse_errors:
  "HasErrors r = (Status r = ''fail'')
   \<and> ErrorCode r = Code (Error r) \<and> ErrorMsg r = Message (Error r)
   \<and> HasErrors \<lparr>Status = ''fail'', Error = \<lparr>Code = 1, Message = ''not found''\<rparr>\<rparr>
   \<and> ErrorCode \<lparr>Status = ''fail'', Error = \<lparr>Code = 1, Message = ''not found''\<rparr>\<rparr> = 1
   \<and> ErrorMsg \<lparr>Status = ''fail'', Error = \<lparr>Code = 1, Message = ''not found''\<rparr>\<rparr>
       = ''not found''
   \<and> \<not> HasErrors \<lparr>Status = ''ok'', Error = e\<rparr>
   \<and> \<not> HasErrors \<lparr>Status = ''FAIL'', Error = e\<rparr>
   \<and> \<not> HasErrors \<lparr>Status = ''failed'', Error = e\<rparr>
   \<and> \<not> HasErrors \<lparr>Status = [], Error = e\<rparr>"
  by (simp add: HasErrors_def ErrorCode_def ErrorMsg_def)

end
